theory Spec2Isabelle
  imports Main "HOL-Library.Code_Target_Nat"
begin

section \<open>JavaScript strings\<close>

text \<open>
  A JavaScript string is a sequence of UTF-16 code units.  The model covers the code
  units U+0000 to U+00FF and writes them as the 8-bit characters of \<open>string\<close>:
  the character with code \<open>n\<close> is the code unit \<open>n\<close>.  Within that range the
  regular-expression class \<open>\s\<close> and \<open>String.prototype.trim\<close> agree on the seven
  characters TAB, LF, VT, FF, CR, SPACE and NBSP, and \<open>toLowerCase\<close> maps the range
  into itself.
\<close>

definition LF :: char where
  "LF = CHR 0x0A"

definition CR :: char where
  "CR = CHR 0x0D"

definition CRLF :: string where
  "CRLF = [CR, LF]"

definition isSpace :: "char \<Rightarrow> bool" where
  "isSpace c \<longleftrightarrow>
     c \<in> set [CHR 0x09, CHR 0x0A, CHR 0x0B, CHR 0x0C, CHR 0x0D, CHR 0x20, CHR 0xA0]"

text \<open>\<open>c.toLowerCase()\<close> on one code unit below 256: A..Z and the Latin-1 capitals
  U+00C0..U+00DE (without the multiplication sign U+00D7) move up by 32.\<close>

definition lowerChar :: "char \<Rightarrow> char" where
  "lowerChar c =
     (let n = (of_char c :: nat) in
      if (65 \<le> n \<and> n \<le> 90) \<or> (192 \<le> n \<and> n \<le> 222 \<and> n \<noteq> 215)
      then char_of (n + 32) else c)"

definition toLowerCase :: "string \<Rightarrow> string" where
  "toLowerCase s = map lowerChar s"

text \<open>\<open>s.replace(/\s*$/, '')\<close>: the first position from which everything is white
  space is the start of the trailing run.\<close>

definition rtrim :: "string \<Rightarrow> string" where
  "rtrim s = rev (dropWhile isSpace (rev s))"

text \<open>\<open>s.trim()\<close>.\<close>

definition trim :: "string \<Rightarrow> string" where
  "trim s = dropWhile isSpace (rtrim s)"

text \<open>\<open>s.replace(/\s+/g, ' ')\<close>: every maximal run of white space becomes one space.\<close>

function collapseWs :: "string \<Rightarrow> string" where
  "collapseWs [] = []"
| "collapseWs (x # xs) =
     (if isSpace x then CHR '' '' # collapseWs (dropWhile isSpace xs)
      else x # collapseWs xs)"
  by pat_completeness auto
termination
  by (relation "measure length") (auto simp: le_imp_less_Suc length_dropWhile_le)

text \<open>\<open>s.split(c)\<close> for a one-character separator.  The result is never empty:
  \<open>''.split(c)\<close> is \<open>['']\<close>.  \<open>addToFirst\<close> puts a character in front of the
  first piece of a split.\<close>

fun addToFirst :: "char \<Rightarrow> string list \<Rightarrow> string list" where
  "addToFirst x [] = [[x]]"
| "addToFirst x (l # ls) = (x # l) # ls"

fun split_char :: "char \<Rightarrow> string \<Rightarrow> string list" where
  "split_char c [] = [[]]"
| "split_char c (x # xs) =
     (if x = c then [] # split_char c xs else addToFirst x (split_char c xs))"

text \<open>\<open>s.split(/\r?\n|\r/)\<close>: CRLF, a lone LF and a lone CR each end a line.\<close>

fun splitEol :: "string \<Rightarrow> string list" where
  "splitEol [] = [[]]"
| "splitEol [x] = (if x = CR \<or> x = LF then [[], []] else [[x]])"
| "splitEol (x # y # zs) =
     (if x = CR \<and> y = LF then [] # splitEol zs
      else if x = CR \<or> x = LF then [] # splitEol (y # zs)
      else addToFirst x (splitEol (y # zs)))"

text \<open>\<open>s.replace(/\r?\n|\r/g, '\n')\<close>.\<close>

fun normalizeEol :: "string \<Rightarrow> string" where
  "normalizeEol [] = []"
| "normalizeEol [x] = (if x = CR then [LF] else [x])"
| "normalizeEol (x # y # zs) =
     (if x = CR \<and> y = LF then LF # normalizeEol zs
      else if x = CR then LF # normalizeEol (y # zs)
      else x # normalizeEol (y # zs))"

text \<open>\<open>xs.join(sep)\<close>.\<close>

fun joinWith :: "string \<Rightarrow> string list \<Rightarrow> string" where
  "joinWith sep [] = []"
| "joinWith sep [x] = x"
| "joinWith sep (x # y # zs) = x @ sep @ joinWith sep (y # zs)"

section \<open>DKIMCanonicalizer\<close>

subsection \<open>relaxedBody\<close>

text \<open>The callback of \<open>map\<close> in \<open>relaxedBody\<close>: right trim, then single spaces.\<close>

definition relaxedBodyLine :: "string \<Rightarrow> string" where
  "relaxedBodyLine line = collapseWs (rtrim line)"

text \<open>\<open>s.replace(/\n*$/, '\n')\<close>: the trailing run of LF (possibly empty) becomes one
  LF.\<close>

definition replaceTrailingLF :: "string \<Rightarrow> string" where
  "replaceTrailingLF s = rev (dropWhile (\<lambda>c. c = LF) (rev s)) @ [LF]"

text \<open>\<open>s.replace(/\n/g, '\r\n')\<close>.\<close>

definition lfToCrlf :: "string \<Rightarrow> string" where
  "lfToCrlf s = concat (map (\<lambda>c. if c = LF then CRLF else [c]) s)"

definition relaxedBody :: "string \<Rightarrow> string" where
  "relaxedBody body =
     lfToCrlf (replaceTrailingLF (joinWith [LF]
       (map relaxedBodyLine (split_char LF (normalizeEol body)))))"


subsection \<open>Equivalent bodies\<close>

text \<open>
  The lines of a body are its pieces between line endings, \<open>splitEol\<close>.  Two lines
  differ only in trailing white space when they are a common text followed by white
  space on either side (\<open>trailingWsEq\<close>); they differ only in runs of white space when
  they are built from the same characters with a non-empty run of white space on one
  side wherever there is one on the other (\<open>wsRunsEq\<close>).  \<open>dropTrailingEmpty\<close>
  removes the empty lines at the end of a list of lines, and \<open>canonLines\<close> are the
  canonical lines of a body without them.
\<close>

definition trailingWsEq :: "string \<Rightarrow> string \<Rightarrow> bool" where
  "trailingWsEq l1 l2 \<longleftrightarrow>
     (\<exists>u w1 w2. l1 = u @ w1 \<and> l2 = u @ w2 \<and> list_all isSpace w1 \<and> list_all isSpace w2)"

inductive wsRunsEq :: "string \<Rightarrow> string \<Rightarrow> bool" where
  Nil: "wsRunsEq [] []"
| Char: "\<not> isSpace c \<Longrightarrow> wsRunsEq xs ys \<Longrightarrow> wsRunsEq (c # xs) (c # ys)"
| Run: "w1 \<noteq> [] \<Longrightarrow> w2 \<noteq> [] \<Longrightarrow> list_all isSpace w1 \<Longrightarrow> list_all isSpace w2 \<Longrightarrow>
        wsRunsEq xs ys \<Longrightarrow> wsRunsEq (w1 @ xs) (w2 @ ys)"

definition dropTrailingEmpty :: "string list \<Rightarrow> string list" where
  "dropTrailingEmpty ls = rev (dropWhile (\<lambda>l. l = []) (rev ls))"

definition canonLines :: "string \<Rightarrow> string list" where
  "canonLines b = dropTrailingEmpty (map relaxedBodyLine (splitEol b))"
subsection \<open>Plain objects used as dictionaries\<close>

text \<open>
  \<open>headerFields = {}\<close> is a plain object: besides its own properties it inherits
  those of \<open>Object.prototype\<close>, which the operator \<open>in\<close> and a property read both
  see.  The own properties are a map from names to strings.  An inherited property
  reads as a function or an object, which is truthy and converts to the text below
  when it is appended to a string.
\<close>

type_synonym dict = "string \<rightharpoonup> string"

definition objectPrototypeKeys :: "string list" where
  "objectPrototypeKeys =
     [''constructor'', ''__defineGetter__'', ''__defineSetter__'', ''hasOwnProperty'',
      ''__lookupGetter__'', ''__lookupSetter__'', ''isPrototypeOf'',
      ''propertyIsEnumerable'', ''toString'', ''valueOf'', ''__proto__'',
      ''toLocaleString'']"

definition inheritedText :: "string \<Rightarrow> string" where
  "inheritedText k =
     (if k = ''__proto__'' then ''[object Object]''
      else if k = ''constructor'' then ''function Object() { [native code] }''
      else ''function '' @ k @ ''() { [native code] }'')"

datatype jsValue = Undefined | Str string | Inherited string

text \<open>\<open>k in d\<close>\<close>

definition hasProperty :: "dict \<Rightarrow> string \<Rightarrow> bool" where
  "hasProperty d k \<longleftrightarrow> d k \<noteq> None \<or> k \<in> set objectPrototypeKeys"

text \<open>\<open>d[k]\<close>\<close>

definition getProperty :: "dict \<Rightarrow> string \<Rightarrow> jsValue" where
  "getProperty d k =
     (case d k of
        Some v \<Rightarrow> Str v
      | None \<Rightarrow> if k \<in> set objectPrototypeKeys then Inherited (inheritedText k) else Undefined)"

fun truthy :: "jsValue \<Rightarrow> bool" where
  "truthy Undefined = False"
| "truthy (Str v) = (v \<noteq> [])"
| "truthy (Inherited t) = True"

text \<open>The text of a value appended to a string with \<open>+\<close>.\<close>

fun toText :: "jsValue \<Rightarrow> string" where
  "toText Undefined = ''undefined''"
| "toText (Str v) = v"
| "toText (Inherited t) = t"

subsection \<open>relaxedHeaderLine\<close>

text \<open>The result \<open>{key, value}\<close> is the pair \<open>(key, value)\<close>.  \<open>line.split(':')\<close>
  is never empty, so \<open>value.shift() || ''\<close> is its first piece.\<close>

definition relaxedHeaderLine :: "string \<Rightarrow> string \<times> string" where
  "relaxedHeaderLine line =
     (let parts = split_char (CHR '':'') line;
          key = trim (toLowerCase (hd parts));
          valueAsString = trim (collapseWs (joinWith '':'' (tl parts)))
      in (key, valueAsString))"

subsection \<open>relaxedHeaders\<close>

record canonicalized =
  headers :: string
  fieldNames :: string

definition includedFields :: "string \<Rightarrow> string list" where
  "includedFields names = map trim (split_char (CHR '':'') (toLowerCase names))"

text \<open>\<open>line.match(/^\s/)\<close>\<close>

fun startsWithSpace :: "string \<Rightarrow> bool" where
  "startsWithSpace [] = False"
| "startsWithSpace (c # cs) = isSpace c"

text \<open>The \<open>else\<close> branch of the first loop: canonicalize the line and record its value
  unless the name is not requested or is already a property of \<open>headerFields\<close>.\<close>

definition recordLine :: "string list \<Rightarrow> string \<Rightarrow> dict \<Rightarrow> dict" where
  "recordLine inc line hf =
     (case relaxedHeaderLine line of
        (k, v) \<Rightarrow> if k \<in> set inc \<and> \<not> hasProperty hf k then hf(k \<mapsto> v) else hf)"

text \<open>
  The first loop runs \<open>i\<close> from \<open>headerLines.length - 1\<close> down to 0.  The lines above
  \<open>i\<close> are never read again, so the loop state is \<open>headerLines[0..i]\<close>, kept here in
  reverse: the head of the list is \<open>headerLines[i]\<close> and the next element is
  \<open>headerLines[i - 1]\<close>.  A line that starts with white space and is not line 0 is
  appended to the line before it and removed.
\<close>

fun joinLoop :: "string list \<Rightarrow> string list \<Rightarrow> dict \<Rightarrow> dict" where
  "joinLoop inc [] hf = hf"
| "joinLoop inc [l] hf = recordLine inc l hf"
| "joinLoop inc (l # p # rest) hf =
     (if startsWithSpace l then joinLoop inc ((p @ l) # rest) hf
      else joinLoop inc (p # rest) (recordLine inc l hf))"

text \<open>
  The second loop runs over \<open>includedFields\<close> from its last index to 0, removes a name
  whose value in \<open>headerFields\<close> is falsy and puts the line of every other name in front
  of \<open>headers\<close>.  The result is the pair of the array \<open>headers\<close> and the names left in
  \<open>includedFields\<close>.
\<close>

fun selectLoop :: "dict \<Rightarrow> string list \<Rightarrow> string list \<times> string list" where
  "selectLoop hf [] = ([], [])"
| "selectLoop hf (n # ns) =
     (case selectLoop hf ns of
        (hs, kept) \<Rightarrow>
          if \<not> truthy (getProperty hf n) then (hs, kept)
          else ((n @ '':'' @ toText (getProperty hf n)) # hs, n # kept))"

definition headerFieldsOf :: "string \<Rightarrow> string \<Rightarrow> dict" where
  "headerFieldsOf rawHeaders names =
     joinLoop (includedFields names) (rev (splitEol rawHeaders)) Map.empty"

definition relaxedHeaders :: "string \<Rightarrow> string \<Rightarrow> canonicalized" where
  "relaxedHeaders rawHeaders names =
     (case selectLoop (headerFieldsOf rawHeaders names) (includedFields names) of
        (hs, kept) \<Rightarrow>
          \<lparr>headers = joinWith CRLF hs @ CRLF, fieldNames = joinWith '':'' kept\<rparr>)"

subsection \<open>The header entries of a block\<close>

text \<open>
  \<open>unfoldRev\<close> is the joining of continuation lines alone, as the first loop does it:
  it takes the lines from the bottom up and returns the joined lines from the bottom
  up.  \<open>headerEntries\<close> are the canonical (name, value) pairs of the joined lines of a
  block from the top down; a name occurs in the block when it is the name of an
  entry.  \<open>lastValue\<close> is the value of the bottommost entry of a name.
\<close>

fun unfoldRev :: "string list \<Rightarrow> string list" where
  "unfoldRev [] = []"
| "unfoldRev [l] = [l]"
| "unfoldRev (l # p # rest) =
     (if startsWithSpace l then unfoldRev ((p @ l) # rest) else l # unfoldRev (p # rest))"

definition headerEntries :: "string \<Rightarrow> (string \<times> string) list" where
  "headerEntries rawHeaders = rev (map relaxedHeaderLine (unfoldRev (rev (splitEol rawHeaders))))"

definition lastValue :: "string \<Rightarrow> string \<Rightarrow> string option" where
  "lastValue rawHeaders n = map_of (rev (headerEntries rawHeaders)) n"

text \<open>The array \<open>headers\<close> and the names left in \<open>includedFields\<close> after the second
  loop.\<close>

definition canonicalLines :: "string \<Rightarrow> string \<Rightarrow> string list" where
  "canonicalLines rawHeaders names =
     fst (selectLoop (headerFieldsOf rawHeaders names) (includedFields names))"

definition keptNames :: "string \<Rightarrow> string \<Rightarrow> string list" where
  "keptNames rawHeaders names =
     snd (selectLoop (headerFieldsOf rawHeaders names) (includedFields names))"

definition valueText :: "string \<Rightarrow> string \<Rightarrow> string" where
  "valueText rawHeaders n = (case lastValue rawHeaders n of Some v \<Rightarrow> v | None \<Rightarrow> [])"

definition hasValue :: "string \<Rightarrow> string \<Rightarrow> bool" where
  "hasValue rawHeaders n = (case lastValue rawHeaders n of Some v \<Rightarrow> v \<noteq> [] | None \<Rightarrow> False)"

section \<open>DKIMSign\<close>

subsection \<open>foldLines\<close>

text \<open>
  \<open>foldLoop\<close> is the \<open>while\<close> loop of \<open>foldLines\<close> on \<open>rest = str.substr(pos)\<close>;
  it returns what the loop appends to \<open>result\<close> from there on.  The three regular
  expressions of the loop body are:
  \<^item> \<open>/^[^\n\r]*(\r?\n|\r)/\<close> on the window: it matches when the window holds a CR
    or LF, and the match is the text up to and with the first line ending
    (\<open>eolPrefix\<close>);
  \<^item> \<open>/(\s+)[^\s]*$/\<close> on the window: it matches when the window holds white space,
    from the start of its last run of white space (group 1, of length \<open>lastWsLen\<close>)
    to the end (the match has length \<open>lastWsLen + tailLen\<close>);
  \<^item> \<open>/^[^\s]+(\s*)/\<close> on the text after the window: it matches when that text starts
    with a character that is not white space, and the match is the run of such
    characters and the white space after it (group 1).
  \<open>lineLength || 76\<close> makes the window length positive; the loop is not entered
  with length 0.
\<close>

definition isEol :: "char \<Rightarrow> bool" where
  "isEol c \<longleftrightarrow> c = CR \<or> c = LF"

text \<open>A text has no line break when it has no CR and no LF.\<close>

definition noEol :: "string \<Rightarrow> bool" where
  "noEol s \<longleftrightarrow> (\<forall>c \<in> set s. \<not> isEol c)"

definition eolPrefix :: "string \<Rightarrow> string" where
  "eolPrefix line =
     takeWhile (\<lambda>c. \<not> isEol c) line @
     (case dropWhile (\<lambda>c. \<not> isEol c) line of
        [] \<Rightarrow> []
      | [c] \<Rightarrow> [c]
      | c # d # _ \<Rightarrow> if c = CR \<and> d = LF then [CR, LF] else [c])"

definition tailLen :: "string \<Rightarrow> nat" where
  "tailLen line = length (takeWhile (\<lambda>c. \<not> isSpace c) (rev line))"

definition lastWsLen :: "string \<Rightarrow> nat" where
  "lastWsLen line = length (takeWhile isSpace (dropWhile (\<lambda>c. \<not> isSpace c) (rev line)))"

definition foldCut :: "bool \<Rightarrow> string \<Rightarrow> string \<Rightarrow> string" where
  "foldCut afterSpace line after =
     (let m0 = lastWsLen line + tailLen line;
          m1 = lastWsLen line;
          cut = m0 - (if afterSpace then m1 else 0)
      in if (\<exists>c \<in> set line. isSpace c) \<and> cut < length line
         then take (length line - cut) line
         else if startsWithSpace after \<or> after = [] then line
         else line @ takeWhile (\<lambda>c. \<not> isSpace c) after @
              (if afterSpace then takeWhile isSpace (dropWhile (\<lambda>c. \<not> isSpace c) after) else []))"

function foldLoop :: "nat \<Rightarrow> bool \<Rightarrow> string \<Rightarrow> string" where
  "foldLoop lineLength afterSpace rest =
     (if rest = [] \<or> lineLength = 0 then []
      else if length (take lineLength rest) < lineLength then take lineLength rest
      else if \<exists>c \<in> set (take lineLength rest). isEol c
      then eolPrefix (take lineLength rest) @
           foldLoop lineLength afterSpace (drop (length (eolPrefix (take lineLength rest))) rest)
      else (let line = foldCut afterSpace (take lineLength rest) (drop lineLength rest)
            in line @ (if drop (length line) rest \<noteq> [] then CRLF else []) @
               foldLoop lineLength afterSpace (drop (length line) rest)))"
  by pat_completeness auto

definition foldLines :: "string \<Rightarrow> nat \<Rightarrow> bool \<Rightarrow> string" where
  "foldLines str lineLength afterSpace =
     foldLoop (if lineLength = 0 then 76 else lineLength) afterSpace str"

lemma eolPrefix_nonempty: "\<exists>c \<in> set line. isEol c \<Longrightarrow> eolPrefix line \<noteq> []"
  by (auto simp: eolPrefix_def split: list.splits)

lemma foldCut_nonempty: "line \<noteq> [] \<Longrightarrow> foldCut a line after \<noteq> []"
  by (auto simp: foldCut_def Let_def)

lemma drop_nonempty_less:
  "xs \<noteq> [] \<Longrightarrow> ys \<noteq> [] \<Longrightarrow> length (drop (length xs) ys) < length ys"
  by (cases xs; cases ys) auto

termination foldLoop
proof (relation "measure (\<lambda>(ll, a, rest). length rest)", goal_cases)
  case 1
  then show ?case by simp
next
  case (2 ll a rest)
  from 2(3) have "eolPrefix (take ll rest) \<noteq> []" by (rule eolPrefix_nonempty)
  with 2(1) show ?case by (simp add: drop_nonempty_less)
next
  case (3 ll a rest line)
  from 3(1) have "take ll rest \<noteq> []" by auto
  with 3(4) have "line \<noteq> []" by (simp add: foldCut_nonempty)
  with 3(1) show ?case by (simp add: drop_nonempty_less)
qed

declare foldLoop.simps [simp del]

subsection \<open>generateDKIMHeader\<close>

text \<open>
  The SHA-256 digest in base64 (\<open>node:crypto\<close>) and the conversion of a domain to
  ASCII (\<open>new URL(...).hostname\<close>, with its fallback) are functions of the platform;
  the model takes them as the parameters \<open>sha256\<close> and \<open>toASCIIDomain\<close>.  An
  option that is \<open>undefined\<close> is \<open>None\<close>; appended to a string it reads
  \<open>undefined\<close>, which has no character above U+007F.
\<close>

definition jsString :: "string option \<Rightarrow> string" where
  "jsString v = (case v of None \<Rightarrow> ''undefined'' | Some s \<Rightarrow> s)"

text \<open>\<open>/[^\u0000-\u007f]/.test(str)\<close>\<close>

definition hasUTFChars :: "string \<Rightarrow> bool" where
  "hasUTFChars str \<longleftrightarrow> (\<exists>c \<in> set str. (of_char c :: nat) > 127)"

definition generateDKIMHeader ::
  "(string \<Rightarrow> string) \<Rightarrow> (string \<Rightarrow> string) \<Rightarrow>
   string option \<Rightarrow> string option \<Rightarrow> string \<Rightarrow> string \<Rightarrow> string \<Rightarrow> string" where
  "generateDKIMHeader sha256 toASCIIDomain domain selector names rawHeaders body =
     (let canonicalizedBody = relaxedBody body;
          canonicalizedBodyHash = sha256 canonicalizedBody;
          canonicalizedHeaderData = relaxedHeaders rawHeaders names;
          domainText = (if hasUTFChars (jsString domain)
                        then toASCIIDomain (jsString domain) else jsString domain);
          dkim = joinWith ''; ''
            [''v=1'', ''a=rsa-sha256'', ''c=relaxed/relaxed'', ''d='' @ domainText,
             ''q=dns/txt'', ''s='' @ jsString selector,
             ''bh='' @ canonicalizedBodyHash,
             ''h='' @ fieldNames canonicalizedHeaderData]
      in foldLines (''DKIM-Signature: '' @ dkim) 76 False @ '';'' @ CRLF @ '' b='')"

subsection \<open>DKIMSign\<close>

record dkimSignOptions =
  domainName :: "string option"
  keySelector :: "string option"
  headerFieldNames :: "string option"
  privateKey :: "string option"

definition defaultFieldNames :: string where
  "defaultFieldNames =
     ''From:Sender:Reply-To:Subject:To:'' @
     ''Cc:MIME-Version:Content-Type:Content-Transfer-Encoding:Content-ID:'' @
     ''Content-Description:Resent-Date:Resent-From:Resent-Sender:'' @
     ''Resent-To:Resent-Cc:Resent-Message-ID:In-Reply-To:References:'' @
     ''List-Id:List-Help:List-Unsubscribe:List-Subscribe:List-Post:'' @
     ''List-Owner:List-Archive''"

text \<open>
  \<open>email.match(/^\r?\n|(?:\r?\n){2}/)\<close> as the pair of \<open>match.index\<close> and
  \<open>match[0].length\<close>: a line ending LF or CRLF at the very start, or else the first
  place where two of them follow each other.
\<close>

definition eolAt :: "string \<Rightarrow> nat option" where
  "eolAt s =
     (case s of
        c # d # _ \<Rightarrow> if c = CR \<and> d = LF then Some 2 else if c = LF then Some 1 else None
      | [c] \<Rightarrow> if c = LF then Some 1 else None
      | [] \<Rightarrow> None)"

definition twoEolAt :: "string \<Rightarrow> nat option" where
  "twoEolAt s =
     (case eolAt s of
        None \<Rightarrow> None
      | Some a \<Rightarrow> (case eolAt (drop a s) of None \<Rightarrow> None | Some b \<Rightarrow> Some (a + b)))"

fun findBlank :: "string \<Rightarrow> nat \<Rightarrow> (nat \<times> nat) option" where
  "findBlank [] i = None"
| "findBlank (c # cs) i =
     (case twoEolAt (c # cs) of Some n \<Rightarrow> Some (i, n) | None \<Rightarrow> findBlank cs (Suc i))"

definition matchBlank :: "string \<Rightarrow> (nat \<times> nat) option" where
  "matchBlank email =
     (case eolAt email of Some n \<Rightarrow> Some (0, n) | None \<Rightarrow> findBlank email 0)"

text \<open>\<open>match && email.substr(0, match.index) || ''\<close>\<close>

definition emailHeaders :: "string \<Rightarrow> string" where
  "emailHeaders email = (case matchBlank email of None \<Rightarrow> [] | Some (i, n) \<Rightarrow> take i email)"

text \<open>\<open>match && email.substr(match.index + match[0].length) || email\<close>: an empty
  rest is falsy, and the body is then the whole message.\<close>

definition emailBody :: "string \<Rightarrow> string" where
  "emailBody email =
     (case matchBlank email of
        None \<Rightarrow> email
      | Some (i, n) \<Rightarrow> if drop (i + n) email = [] then email else drop (i + n) email)"

text \<open>\<open>options.headerFieldNames || defaultFieldNames\<close>\<close>

definition requestedNames :: "dkimSignOptions \<Rightarrow> string" where
  "requestedNames options =
     (case headerFieldNames options of
        None \<Rightarrow> defaultFieldNames
      | Some names \<Rightarrow> if names = [] then defaultFieldNames else names)"

definition dkimHeader ::
  "(string \<Rightarrow> string) \<Rightarrow> (string \<Rightarrow> string) \<Rightarrow> string \<Rightarrow> dkimSignOptions \<Rightarrow> string" where
  "dkimHeader sha256 toASCIIDomain email options =
     generateDKIMHeader sha256 toASCIIDomain (domainName options) (keySelector options)
       (requestedNames options) (emailHeaders email) (emailBody email)"

text \<open>The string given to \<open>signer.update\<close>: \<open>canonicalizedHeaderData.headers\<close> after
  the key, a colon and the value of the canonicalized DKIM header were appended.\<close>

definition signedData ::
  "(string \<Rightarrow> string) \<Rightarrow> (string \<Rightarrow> string) \<Rightarrow> string \<Rightarrow> dkimSignOptions \<Rightarrow> string" where
  "signedData sha256 toASCIIDomain email options =
     (let dkim = dkimHeader sha256 toASCIIDomain email options;
          canonicalizedHeaderData = relaxedHeaders (emailHeaders email) (requestedNames options);
          canonicalizedDKIMHeader = relaxedHeaderLine dkim
      in headers canonicalizedHeaderData @
         fst canonicalizedDKIMHeader @ '':'' @ snd canonicalizedDKIMHeader)"

text \<open>
  \<open>signature.replace(/(^.{73}|.{75}(?!\r?\n|\r))/g, '$&\r\n ')\<close>: \<open>.\<close> matches
  every character but a line terminator.  At the start the first 73 characters
  match if they are there and none is a line terminator; from then on (and at every
  later position) 75 such characters match when no CR or LF follows them.  A position
  where nothing matches is copied.
\<close>

function foldFrom :: "string \<Rightarrow> string" where
  "foldFrom s =
     (if s = [] then []
      else if 75 \<le> length s \<and> (\<forall>c \<in> set (take 75 s). \<not> isEol c) \<and>
              (case drop 75 s of [] \<Rightarrow> True | c # _ \<Rightarrow> \<not> isEol c)
      then take 75 s @ CRLF @ '' '' @ foldFrom (drop 75 s)
      else hd s # foldFrom (tl s))"
  by pat_completeness auto
termination
  by (relation "measure length") (auto simp: Suc_le_eq intro: diff_less)

declare foldFrom.simps [simp del]

definition foldSignature :: "string \<Rightarrow> string" where
  "foldSignature s =
     (if 73 \<le> length s \<and> (\<forall>c \<in> set (take 73 s). \<not> isEol c)
      then take 73 s @ CRLF @ '' '' @ foldFrom (drop 73 s)
      else foldFrom s)"

text \<open>
  A thrown value or the reason of a rejected promise is an \<open>error\<close>:
  \<open>new Error(message)\<close> or a \<open>TypeError\<close>.  The RSA-SHA256 signature in base64
  of a string under a key (\<open>signer.update(data)\<close> and then
  \<open>signer.sign(key, 'base64')\<close> of \<open>node:crypto\<close>) is the parameter \<open>sign\<close>; it
  throws when the key is missing or cannot be read, and \<open>DKIMSign\<close> then throws the
  same error.
\<close>

datatype error = Error string | TypeError string

definition DKIMSign ::
  "(string \<Rightarrow> string) \<Rightarrow> (string \<Rightarrow> string) \<Rightarrow>
   (string \<Rightarrow> string option \<Rightarrow> error + string) \<Rightarrow>
   string \<Rightarrow> dkimSignOptions \<Rightarrow> error + string" where
  "DKIMSign sha256 toASCIIDomain sign email options =
     (case sign (signedData sha256 toASCIIDomain email options) (privateKey options) of
        Inl e \<Rightarrow> Inl e
      | Inr signature \<Rightarrow>
          Inr (dkimHeader sha256 toASCIIDomain email options @ trim (foldSignature signature)))"







section \<open>Postman\<close>

subsection \<open>getMailExchange\<close>

text \<open>
  The promise of \<open>getMailExchange\<close> is settled by whichever of two events comes
  first, the timer or the callback of \<open>dns.resolveMx\<close>; a later event finds the
  promise settled (and the callback clears the timer).  The model takes that first
  event as its input.  The callback carries an error (\<open>None\<close> for \<open>null\<close>) and the
  addresses (\<open>None\<close> for \<open>undefined\<close>).  A rejection carries \<open>new Error(message)\<close>.
  The timeout is a natural number of milliseconds, printed in decimal.
\<close>

record mxRecord =
  exchange :: string
  priority :: nat

datatype dnsEvent = TimerFired | Resolved "string option" "mxRecord list option"

fun digitChar :: "nat \<Rightarrow> char" where
  "digitChar n = char_of (48 + n)"

function showNat :: "nat \<Rightarrow> string" where
  "showNat n = (if n < 10 then [digitChar n] else showNat (n div 10) @ [digitChar (n mod 10)])"
  by pat_completeness auto
termination
  by (relation "measure id") auto

declare showNat.simps [simp del]

text \<open>\<open>addresses.sort((a, b) => a.priority - b.priority)[0]\<close>: the sort is stable, as
  \<open>sort_key\<close> is.\<close>

definition getMailExchange :: "string \<Rightarrow> nat \<Rightarrow> dnsEvent \<Rightarrow> error + string" where
  "getMailExchange domain timeout ev =
     (case ev of
        TimerFired \<Rightarrow>
          Inl (Error (''DNS resolution timed out after '' @ showNat timeout @ ''ms''))
      | Resolved err addresses \<Rightarrow>
          (case err of
             Some message \<Rightarrow>
               Inl (Error (''Failed to resolve MX records for domain '' @ domain @ '': '' @ message))
           | None \<Rightarrow>
               (case addresses of
                  None \<Rightarrow> Inl (Error (''No MX records found for domain '' @ domain))
                | Some [] \<Rightarrow> Inl (Error (''No MX records found for domain '' @ domain))
                | Some (a # as) \<Rightarrow> Inr (exchange (hd (sort_key priority (a # as)))))))"

subsection \<open>getRecipientsByMx\<close>

text \<open>
  A recipient field of the envelope is a string or an array of strings; \<open>cc\<close> and
  \<open>bcc\<close> may be absent.  The field names of \<open>SendEnvelope\<close> carry the prefix
  \<open>env_\<close> here.
\<close>

datatype addresses = One string | Many "string list"

record envelopeAttachment =
  filename :: string
  path :: string
  contentType :: string

record sendEnvelope =
  env_from :: string
  env_to :: addresses
  env_cc :: "addresses option"
  env_bcc :: "addresses option"
  env_subject :: string
  env_body :: string
  env_html :: "string option"
  env_attachments :: "envelopeAttachment list option"

record recipientGroup =
  mxHost :: string
  recipients :: "string list"

text \<open>What the three \<open>if\<close> statements push on \<open>allRecipients\<close>: \<open>to\<close> always, \<open>cc\<close>
  and \<open>bcc\<close> when they are arrays or non-empty strings.\<close>

definition toRecipients :: "sendEnvelope \<Rightarrow> string list" where
  "toRecipients env = (case env_to env of Many xs \<Rightarrow> xs | One x \<Rightarrow> [x])"

fun optionalRecipients :: "addresses option \<Rightarrow> string list" where
  "optionalRecipients None = []"
| "optionalRecipients (Some (Many xs)) = xs"
| "optionalRecipients (Some (One x)) = (if x = [] then [] else [x])"

definition allRecipients :: "sendEnvelope \<Rightarrow> string list" where
  "allRecipients env =
     toRecipients env @ optionalRecipients (env_cc env) @ optionalRecipients (env_bcc env)"

text \<open>\<open>recipient.split('@')[1]\<close>: the second piece of the split, or \<open>undefined\<close>;
  used as a property name, \<open>undefined\<close> is the string of that name.\<close>

definition secondPiece :: "string \<Rightarrow> string option" where
  "secondPiece r = (case split_char (CHR ''@'') r of _ # d # _ \<Rightarrow> Some d | _ \<Rightarrow> None)"

definition domainKey :: "string \<Rightarrow> string" where
  "domainKey r = jsString (secondPiece r)"

text \<open>
  \<open>domainMap\<close> is a plain object with arrays as values; the model keeps its own
  properties in the order of their creation.  A name that \<open>Object.prototype\<close> has
  reads as a truthy value without a method \<open>push\<close>: the callback of \<open>forEach\<close> throws
  a \<open>TypeError\<close>, which rejects the promise of the function.
\<close>

type_synonym domainMap = "(string \<times> string list) list"

definition pushRecipient :: "domainMap \<Rightarrow> string \<Rightarrow> error + domainMap" where
  "pushRecipient m r =
     (let domain = domainKey r in
      if domain \<in> set objectPrototypeKeys
      then Inl (TypeError ''domainMap[domain].push is not a function'')
      else case map_of m domain of
             None \<Rightarrow> Inr (m @ [(domain, [r])])
           | Some rs \<Rightarrow> Inr (map (\<lambda>(k, v). if k = domain then (k, v @ [r]) else (k, v)) m))"

fun groupRecipients :: "domainMap \<Rightarrow> string list \<Rightarrow> error + domainMap" where
  "groupRecipients m [] = Inr m"
| "groupRecipients m (r # rs) =
     (case pushRecipient m r of Inl e \<Rightarrow> Inl e | Inr m' \<Rightarrow> groupRecipients m' rs)"

text \<open>
  \<open>Object.keys\<close> lists the names that are array indices first, in ascending numeric
  order, and then the other names in the order of their creation.  An array index
  is the decimal numeral, without leading zeros, of a number below \<open>2^32 - 1\<close>.
\<close>

definition isDigit :: "char \<Rightarrow> bool" where
  "isDigit c \<longleftrightarrow> c \<in> set ''0123456789''"

definition digitValue :: "char \<Rightarrow> nat" where
  "digitValue c = of_char c - 48"

definition decimalValue :: "string \<Rightarrow> nat" where
  "decimalValue s = foldl (\<lambda>n c. 10 * n + digitValue c) 0 s"

definition isArrayIndex :: "string \<Rightarrow> bool" where
  "isArrayIndex k \<longleftrightarrow>
     k \<noteq> [] \<and> list_all isDigit k \<and> (k = ''0'' \<or> hd k \<noteq> CHR ''0'') \<and>
     decimalValue k < 4294967295"

definition objectKeys :: "domainMap \<Rightarrow> string list" where
  "objectKeys m =
     sort_key decimalValue (filter isArrayIndex (map fst m)) @
     filter (\<lambda>k. \<not> isArrayIndex k) (map fst m)"

text \<open>
  \<open>Promise.all\<close> over the lookups of the domains.  The DNS is the parameter \<open>dns\<close>,
  which gives for each domain the instant at which its lookup is settled and the
  first event of the lookup.  \<open>Promise.all\<close> is fulfilled with the results in the
  order of the keys when every lookup is fulfilled, and is rejected with the rejection
  that happens first in time otherwise; rejections at the same instant are taken in
  the order of the keys.
\<close>

definition lookupOne ::
  "(string \<Rightarrow> nat \<times> dnsEvent) \<Rightarrow> nat \<Rightarrow> domainMap \<Rightarrow> string \<Rightarrow> nat \<times> (error + recipientGroup)" where
  "lookupOne dns timeout m domain =
     (fst (dns domain),
      case getMailExchange domain timeout (snd (dns domain)) of
        Inl e \<Rightarrow> Inl e
      | Inr host \<Rightarrow>
          Inr \<lparr>mxHost = host,
               recipients = (case map_of m domain of Some rs \<Rightarrow> rs | None \<Rightarrow> [])\<rparr>)"

fun rejections :: "(nat \<times> (error + 'a)) list \<Rightarrow> (nat \<times> error) list" where
  "rejections [] = []"
| "rejections ((t, Inl e) # rs) = (t, e) # rejections rs"
| "rejections ((t, Inr v) # rs) = rejections rs"

fun fulfilments :: "(nat \<times> (error + 'a)) list \<Rightarrow> 'a list" where
  "fulfilments [] = []"
| "fulfilments ((t, Inl e) # rs) = fulfilments rs"
| "fulfilments ((t, Inr v) # rs) = v # fulfilments rs"

definition promiseAll :: "(nat \<times> (error + 'a)) list \<Rightarrow> error + 'a list" where
  "promiseAll rs =
     (case sort_key fst (rejections rs) of
        [] \<Rightarrow> Inr (fulfilments rs)
      | (t, e) # _ \<Rightarrow> Inl e)"

definition lookupAll ::
  "(string \<Rightarrow> nat \<times> dnsEvent) \<Rightarrow> nat \<Rightarrow> domainMap \<Rightarrow> string list \<Rightarrow> error + recipientGroup list" where
  "lookupAll dns timeout m domains = promiseAll (map (lookupOne dns timeout m) domains)"


definition getRecipientsByMx ::
  "(string \<Rightarrow> nat \<times> dnsEvent) \<Rightarrow> sendEnvelope \<Rightarrow> nat \<Rightarrow> error + recipientGroup list" where
  "getRecipientsByMx dns sendOptions timeout =
     (case groupRecipients [] (allRecipients sendOptions) of
        Inl e \<Rightarrow> Inl e
      | Inr m \<Rightarrow> lookupAll dns timeout m (objectKeys m))"

text \<open>Two MX records, used to run the lookup on a concrete answer.\<close>

definition exampleRecords :: "mxRecord list" where
  "exampleRecords =
     [\<lparr>exchange = ''mx2.ex1.com'', priority = 20\<rparr>, \<lparr>exchange = ''mx1.ex1.com'', priority = 10\<rparr>]"




text \<open>The envelope of scenario S4 and a DNS that answers every lookup with two
  records, at the instant 5.\<close>

definition envelopeS4 :: sendEnvelope where
  "envelopeS4 =
     \<lparr>env_from = ''me@x.org'', env_to = Many [''a@ex1.com''],
      env_cc = Some (Many [''b@ex1.com'']), env_bcc = Some (Many [''c@ex2.com'']),
      env_subject = ''Hi'', env_body = ''Hello'', env_html = None, env_attachments = None\<rparr>"

definition exampleDns :: "string \<Rightarrow> nat \<times> dnsEvent" where
  "exampleDns d =
     (5, Resolved None (Some [\<lparr>exchange = ''mx2.'' @ d, priority = 20\<rparr>,
                              \<lparr>exchange = ''mx1.'' @ d, priority = 10\<rparr>]))"

definition groupsS4 :: "recipientGroup list" where
  "groupsS4 =
     [\<lparr>mxHost = ''mx1.ex1.com'', recipients = [''a@ex1.com'', ''b@ex1.com'']\<rparr>,
      \<lparr>mxHost = ''mx1.ex2.com'', recipients = [''c@ex2.com'']\<rparr>]"


subsection \<open>The recipients and the domains of an envelope\<close>










subsection \<open>createEmailMessage\<close>

text \<open>
  The values that the platform supplies for one message are parameters: the three
  results of \<open>crypto.randomBytes(16).toString('hex')\<close> (for the two boundaries and the
  Message-ID), the result of \<open>Date.now()\<close>, and \<open>readFile\<close>, which gives the base64
  text of the file at a path or the error of the read.  The digest, domain and signature functions of
  \<open>DKIMSign\<close> are fields of the same record.
\<close>

record platform =
  mixedHex :: string
  alternativeHex :: string
  messageIdHex :: string
  now :: nat
  readFile :: "string \<Rightarrow> error + string"
  sha256Base64 :: "string \<Rightarrow> string"
  domainToASCII :: "string \<Rightarrow> string"
  rsaSign :: "string \<Rightarrow> string option \<Rightarrow> error + string"

record dkimOptions =
  dkimDomain :: string
  dkimKeySelector :: string
  dkimPrivateKey :: string

definition dquote :: string where
  "dquote = [CHR 0x22]"

definition formatAddresses :: "addresses \<Rightarrow> string" where
  "formatAddresses a = (case a of Many xs \<Rightarrow> joinWith '', '' xs | One x \<Rightarrow> x)"

definition generateMessageId :: "platform \<Rightarrow> string \<Rightarrow> string" where
  "generateMessageId p d = ''<'' @ messageIdHex p @ ''.'' @ showNat (now p) @ ''@'' @ d @ ''>''"

text \<open>The template literal of \<open>encodeAttachment\<close>; its line breaks are LF.\<close>

definition encodeAttachment :: "platform \<Rightarrow> envelopeAttachment \<Rightarrow> string \<Rightarrow> error + string" where
  "encodeAttachment p attachment boundary =
     (case readFile p (path attachment) of
        Inl e \<Rightarrow> Inl e
      | Inr base64Content \<Rightarrow>
          Inr ([LF] @ ''--'' @ boundary @ [LF] @
               ''Content-Type: '' @ contentType attachment @ ''; name='' @ dquote @
                 filename attachment @ dquote @ [LF] @
               ''Content-Transfer-Encoding: base64'' @ [LF] @
               ''Content-Disposition: attachment; filename='' @ dquote @
                 filename attachment @ dquote @ [LF] @ [LF] @
               base64Content @ [LF]))"

fun encodeAttachments :: "platform \<Rightarrow> envelopeAttachment list \<Rightarrow> string \<Rightarrow> error + string" where
  "encodeAttachments p [] boundary = Inr []"
| "encodeAttachments p (a # as) boundary =
     (case encodeAttachment p a boundary of
        Inl e \<Rightarrow> Inl e
      | Inr part \<Rightarrow>
          (case encodeAttachments p as boundary of Inl e \<Rightarrow> Inl e | Inr parts \<Rightarrow> Inr (part @ parts)))"

text \<open>\<open>if (cc)\<close>, \<open>if (bcc)\<close>: an array is truthy, a string when it is not empty.\<close>

fun truthyAddresses :: "addresses option \<Rightarrow> bool" where
  "truthyAddresses None = False"
| "truthyAddresses (Some (Many xs)) = True"
| "truthyAddresses (Some (One x)) = (x \<noteq> [])"

definition optionalHeader :: "string \<Rightarrow> addresses option \<Rightarrow> string" where
  "optionalHeader name a =
     (case a of
        None \<Rightarrow> []
      | Some v \<Rightarrow> if truthyAddresses a then name @ '': '' @ formatAddresses v @ CRLF else [])"

definition dkimSigned :: "platform \<Rightarrow> string \<Rightarrow> dkimOptions \<Rightarrow> error + string" where
  "dkimSigned p rfc822message options =
     (case DKIMSign (sha256Base64 p) (domainToASCII p) (rsaSign p) rfc822message
             \<lparr>domainName = Some (dkimDomain options),
              keySelector = Some (dkimKeySelector options),
              headerFieldNames = None, privateKey = Some (dkimPrivateKey options)\<rparr> of
        Inl e \<Rightarrow> Inl e
      | Inr dkimSignature \<Rightarrow> Inr (dkimSignature @ CRLF @ rfc822message))"

text \<open>
  The message before signing, in the order in which \<open>createEmailMessage\<close> appends
  to \<open>message\<close>: the lines Message-ID, From, To and CC (\<open>addressHeaders\<close>); the
  line BCC; the lines Subject, MIME-Version and Content-Type with the blank line that
  ends the headers (\<open>subjectHeaders\<close>); the opening of the two multipart levels and of
  the plain-text part (\<open>partsBeforeBody\<close>); the body and CRLF; and the HTML part,
  the closing of the alternative level, the attachments and the closing of the mixed
  level (\<open>partsAfterBody\<close>).
\<close>

definition mixedBoundary :: "platform \<Rightarrow> string" where
  "mixedBoundary p = ''--boundary_'' @ mixedHex p"

definition alternativeBoundary :: "platform \<Rightarrow> string" where
  "alternativeBoundary p = ''--boundary_'' @ alternativeHex p"

definition addressHeaders :: "platform \<Rightarrow> sendEnvelope \<Rightarrow> string" where
  "addressHeaders p sendOptions =
     (let fromDomain = jsString (secondPiece (env_from sendOptions))
      in ''Message-ID: '' @ generateMessageId p fromDomain @ CRLF @
         ''From: '' @ env_from sendOptions @ CRLF @
         ''To: '' @ formatAddresses (env_to sendOptions) @ CRLF @
         optionalHeader ''CC'' (env_cc sendOptions))"

definition subjectHeaders :: "platform \<Rightarrow> sendEnvelope \<Rightarrow> string" where
  "subjectHeaders p sendOptions =
     ''Subject: '' @ env_subject sendOptions @ CRLF @
     ''MIME-Version: 1.0'' @ CRLF @
     ''Content-Type: multipart/mixed; boundary='' @ dquote @ mixedBoundary p @ dquote @
       CRLF @ CRLF"

definition partsBeforeBody :: "platform \<Rightarrow> string" where
  "partsBeforeBody p =
     ''--'' @ mixedBoundary p @ CRLF @
     ''Content-Type: multipart/alternative; boundary='' @ dquote @ alternativeBoundary p @
       dquote @ CRLF @ CRLF @
     ''--'' @ alternativeBoundary p @ CRLF @
     ''Content-Type: text/plain; charset='' @ dquote @ ''utf-8'' @ dquote @ CRLF @ CRLF"

definition partsAfterBody :: "platform \<Rightarrow> sendEnvelope \<Rightarrow> string \<Rightarrow> string" where
  "partsAfterBody p sendOptions attachmentText =
     (case env_html sendOptions of
        None \<Rightarrow> []
      | Some html \<Rightarrow>
          if html = [] then []
          else ''--'' @ alternativeBoundary p @ CRLF @
               ''Content-Type: text/html; charset='' @ dquote @ ''utf-8'' @ dquote @
                 CRLF @ CRLF @
               html @ CRLF) @
     ''--'' @ alternativeBoundary p @ ''--'' @ CRLF @
     attachmentText @
     ''--'' @ mixedBoundary p @ ''--'' @ CRLF"

definition messageText :: "platform \<Rightarrow> sendEnvelope \<Rightarrow> string \<Rightarrow> string" where
  "messageText p sendOptions attachmentText =
     addressHeaders p sendOptions @
     optionalHeader ''BCC'' (env_bcc sendOptions) @
     subjectHeaders p sendOptions @
     partsBeforeBody p @
     env_body sendOptions @ CRLF @
     partsAfterBody p sendOptions attachmentText"

definition createEmailMessage ::
  "platform \<Rightarrow> sendEnvelope \<Rightarrow> dkimOptions option \<Rightarrow> error + string" where
  "createEmailMessage p sendOptions dkim =
     (case (case env_attachments sendOptions of
              None \<Rightarrow> Inr []
            | Some as \<Rightarrow> encodeAttachments p as (mixedBoundary p)) of
        Inl e \<Rightarrow> Inl e
      | Inr attachmentText \<Rightarrow>
          (let message = messageText p sendOptions attachmentText
           in case dkim of
                Some options \<Rightarrow> dkimSigned p message options
              | None \<Rightarrow> Inr message))"

subsection \<open>Postman.send: the handler of the TLS socket\<close>

text \<open>
  \<open>parseInt(s.substring(0, 3))\<close>: leading white space is skipped, a sign is read, a
  prefix \<open>0x\<close> or \<open>0X\<close> selects base 16, and the longest run of digits of the base is
  the number; without a digit the result is \<open>NaN\<close>, which is \<open>None\<close> here.
\<close>

definition hexDigitValue :: "char \<Rightarrow> int option" where
  "hexDigitValue c =
     (let n = (of_char c :: int) in
      if 48 \<le> n \<and> n \<le> 57 then Some (n - 48)
      else if 97 \<le> n \<and> n \<le> 102 then Some (n - 87)
      else if 65 \<le> n \<and> n \<le> 70 then Some (n - 55)
      else None)"

definition digitOf :: "int \<Rightarrow> char \<Rightarrow> int option" where
  "digitOf radix c =
     (case hexDigitValue c of
        None \<Rightarrow> None
      | Some v \<Rightarrow> if v < radix then Some v else None)"

definition digitsValue :: "int \<Rightarrow> string \<Rightarrow> int option" where
  "digitsValue radix s =
     (let ds = takeWhile (\<lambda>c. digitOf radix c \<noteq> None) s
      in if ds = [] then None
         else Some (foldl (\<lambda>n c. radix * n + (case digitOf radix c of Some v \<Rightarrow> v | None \<Rightarrow> 0)) 0 ds))"

definition unsignedValue :: "string \<Rightarrow> int option" where
  "unsignedValue s =
     (case s of
        a # b # rest \<Rightarrow>
          if a = CHR ''0'' \<and> (b = CHR ''x'' \<or> b = CHR ''X'') then digitsValue 16 rest
          else digitsValue 10 s
      | _ \<Rightarrow> digitsValue 10 s)"

definition parseInt :: "string \<Rightarrow> int option" where
  "parseInt s =
     (case dropWhile isSpace s of
        [] \<Rightarrow> None
      | c # cs \<Rightarrow>
          if c = CHR ''-'' then map_option uminus (unsignedValue cs)
          else if c = CHR ''+'' then unsignedValue cs
          else unsignedValue (c # cs))"

definition responseCode :: "string \<Rightarrow> int option" where
  "responseCode response = parseInt (take 3 response)"

text \<open>\<open>s.startsWith(t)\<close> and \<open>s.includes(t)\<close>\<close>

fun startsWith :: "string \<Rightarrow> string \<Rightarrow> bool" where
  "startsWith s [] = True"
| "startsWith [] (t # ts) = False"
| "startsWith (c # cs) (t # ts) = (c = t \<and> startsWith cs ts)"

fun includesText :: "string \<Rightarrow> string \<Rightarrow> bool" where
  "includesText [] t = (t = [])"
| "includesText (c # cs) t = (startsWith (c # cs) t \<or> includesText cs t)"

text \<open>
  What a handler does in answer to one chunk of data, in order: writes on the socket,
  the settling of the promise of the session, and the closing or destroying of the
  socket.  The message is created asynchronously when the code is 354; its two writes
  (or the rejection, when an attachment cannot be read or the signer throws) are
  listed as the effect of that chunk.
\<close>

datatype effect = Write string | Resolve string | Reject error | EndSocket | DestroySocket

definition tlsOnData ::
  "platform \<Rightarrow> dkimOptions option \<Rightarrow> sendEnvelope \<Rightarrow> recipientGroup \<Rightarrow>
   bool \<Rightarrow> string \<Rightarrow> effect list \<times> bool" where
  "tlsOnData p dkim sendOptions grp tlsGreeted tlsResponse =
     (let code = responseCode tlsResponse in
      if code = Some 250 \<and> \<not> tlsGreeted
      then (Write (''MAIL FROM:<'' @ env_from sendOptions @ ''>'' @ CRLF) #
            map (\<lambda>recipient. Write (''RCPT TO:<'' @ recipient @ ''>'' @ CRLF)) (recipients grp) @
            [Write (''DATA'' @ CRLF)], True)
      else if code = Some 354
      then (case createEmailMessage p sendOptions dkim of
              Inr message \<Rightarrow> ([Write message, Write (''.'' @ CRLF)], tlsGreeted)
            | Inl e \<Rightarrow> ([Reject e], tlsGreeted))
      else if code = Some 250 \<and> includesText tlsResponse ''2.0.0''
      then ([Write (''QUIT'' @ CRLF), Resolve ''Email sent successfully'', EndSocket], tlsGreeted)
      else if (case code of Some n \<Rightarrow> n \<ge> 500 | None \<Rightarrow> False)
      then ([DestroySocket, Reject (Error (''TLS error: '' @ tlsResponse))], tlsGreeted)
      else ([], tlsGreeted))"

text \<open>
  The handler of the plain socket, before the upgrade: it returns its effects, the
  new value of \<open>greeted\<close> and whether it starts the TLS connection (whose callback
  writes the second \<open>EHLO\<close> on the TLS socket).
\<close>

definition clientOnData :: "string \<Rightarrow> bool \<Rightarrow> string \<Rightarrow> effect list \<times> bool \<times> bool" where
  "clientOnData host greeted serverData =
     (let code = responseCode serverData in
      if code = Some 220 \<and> \<not> greeted
      then ([Write (''EHLO '' @ host @ CRLF)], greeted, False)
      else if code = Some 250 \<and> \<not> greeted
      then (if includesText serverData ''250-STARTTLS''
            then ([Write (''STARTTLS'' @ CRLF)], True, False)
            else ([DestroySocket, Reject (Error ''Must accept TLS'')], True, False))
      else if code = Some 220 \<and> includesText serverData ''TLS'' \<and> greeted
      then ([], greeted, True)
      else if (case code of Some n \<Rightarrow> n \<ge> 500 | None \<Rightarrow> False)
      then ([DestroySocket, Reject (Error (''SMTP error: '' @ serverData))], greeted, False)
      else ([], greeted, False))"

text \<open>The effects of a session on the TLS socket for a list of chunks, up to the
  chunk that settles the promise.\<close>

definition settles :: "effect list \<Rightarrow> bool" where
  "settles es \<longleftrightarrow> (\<exists>e \<in> set es. case e of Resolve _ \<Rightarrow> True | Reject _ \<Rightarrow> True | _ \<Rightarrow> False)"

fun tlsSession ::
  "platform \<Rightarrow> dkimOptions option \<Rightarrow> sendEnvelope \<Rightarrow> recipientGroup \<Rightarrow>
   bool \<Rightarrow> string list \<Rightarrow> effect list" where
  "tlsSession p dkim sendOptions grp tlsGreeted [] = []"
| "tlsSession p dkim sendOptions grp tlsGreeted (chunk # chunks) =
     (case tlsOnData p dkim sendOptions grp tlsGreeted chunk of
        (es, greeted') \<Rightarrow>
          if settles es then es
          else es @ tlsSession p dkim sendOptions grp greeted' chunks)"

text \<open>A platform with fixed values, to run the message builder.\<close>

definition examplePlatform :: platform where
  "examplePlatform =
     \<lparr>mixedHex = ''aa'', alternativeHex = ''bb'', messageIdHex = ''cc'', now = 1700000000000,
      readFile = (\<lambda>path. Inl (Error ''ENOENT'')), sha256Base64 = (\<lambda>b. ''HASH''),
      domainToASCII = (\<lambda>d. d), rsaSign = (\<lambda>d k. Inr ''SIGNATURE'')\<rparr>"

text \<open>An envelope whose body has a line that is a single dot and a line that starts
  with two dots.\<close>

definition dotEnvelope :: sendEnvelope where
  "dotEnvelope =
     \<lparr>env_from = ''me@x.org'', env_to = One ''a@ex1.com'', env_cc = None, env_bcc = None,
      env_subject = ''Hi'', env_body = ''.'' @ CRLF @ ''..x'', env_html = None,
      env_attachments = None\<rparr>"

definition dotGroup :: recipientGroup where
  "dotGroup = \<lparr>mxHost = ''mx1.ex1.com'', recipients = [''a@ex1.com'']\<rparr>"

subsection \<open>The header section of a payload\<close>





section \<open>Properties\<close>

lemma addToFirst_nonempty [simp]: "addToFirst x ls \<noteq> []"
  by (cases ls) auto

lemma split_char_nonempty [simp]: "split_char c s \<noteq> []"
  by (induction s) auto

lemma splitEol_nonempty [simp]: "splitEol s \<noteq> []"
  by (induction s rule: splitEol.induct) auto

lemma addToFirst_append: "ls \<noteq> [] \<Longrightarrow> addToFirst x (ls @ ms) = addToFirst x ls @ ms"
  by (cases ls) auto

lemma set_addToFirst: "ls \<noteq> [] \<Longrightarrow> \<Union> (set ` set (addToFirst x ls)) = insert x (\<Union> (set ` set ls))"
  by (cases ls) auto

lemma split_char_chars: "\<Union> (set ` set (split_char c s)) = set s - {c}"
  by (induction s) (auto simp: set_addToFirst)

lemma split_char_no_sep: "l \<in> set (split_char c s) \<Longrightarrow> c \<notin> set l"
  using split_char_chars [of c s] by auto

lemma split_char_subset: "l \<in> set (split_char c s) \<Longrightarrow> set l \<subseteq> set s"
  using split_char_chars [of c s] by auto

lemma normalizeEol_no_CR: "CR \<notin> set (normalizeEol s)"
  by (induction s rule: normalizeEol.induct) (auto simp: CR_def LF_def)

lemma splitEol_eq: "splitEol s = split_char LF (normalizeEol s)"
  by (induction s rule: splitEol.induct) (auto simp: CR_def LF_def)

lemma splitEol_no_eol: "l \<in> set (splitEol s) \<Longrightarrow> CR \<notin> set l \<and> LF \<notin> set l"
  unfolding splitEol_eq
  using split_char_no_sep [of l LF "normalizeEol s"] split_char_subset [of l LF "normalizeEol s"]
    normalizeEol_no_CR [of s] by auto

lemma joinWith_snoc:
  "joinWith sep (ls @ [l]) = (if ls = [] then l else joinWith sep ls @ sep @ l)"
  by (induction sep ls rule: joinWith.induct) auto

lemma replaceTrailingLF_join:
  "\<forall>l \<in> set ls. LF \<notin> set l \<Longrightarrow>
   replaceTrailingLF (joinWith [LF] ls) = joinWith [LF] (dropTrailingEmpty ls) @ [LF]"
proof (induction ls rule: rev_induct)
  case Nil
  then show ?case by (simp add: replaceTrailingLF_def dropTrailingEmpty_def)
next
  case (snoc l ls)
  show ?case
  proof (cases "l = []")
    case True
    with snoc show ?thesis
      by (auto simp: joinWith_snoc replaceTrailingLF_def dropTrailingEmpty_def)
  next
    case False
    then have "last l \<noteq> LF" using snoc.prems by (metis last_in_set in_set_conv_decomp append_is_Nil_conv Un_iff set_append list.set_intros(1))
    with False show ?thesis
      by (cases l rule: rev_cases)
         (auto simp: joinWith_snoc replaceTrailingLF_def dropTrailingEmpty_def)
  qed
qed

lemma set_rtrim: "set (rtrim s) \<subseteq> set s"
  unfolding rtrim_def using set_dropWhileD by fastforce

lemma set_collapseWs: "set (collapseWs s) \<subseteq> insert (CHR '' '') (set s)"
  by (induction s rule: collapseWs.induct) (auto dest: set_dropWhileD)

lemma relaxedBodyLine_no_eol:
  "CR \<notin> set l \<Longrightarrow> LF \<notin> set l \<Longrightarrow> CR \<notin> set (relaxedBodyLine l) \<and> LF \<notin> set (relaxedBodyLine l)"
  using set_collapseWs [of "rtrim l"] set_rtrim [of l]
  by (auto simp: relaxedBodyLine_def CR_def LF_def)

lemma relaxedBodyLine_Nil [simp]: "relaxedBodyLine [] = []"
  by (simp add: relaxedBodyLine_def rtrim_def)

lemma rtrim_Cons:
  "rtrim (x # xs) = (if (\<forall>c \<in> set (x # xs). isSpace c) then [] else x # rtrim xs)"
  by (auto simp: rtrim_def dropWhile_append)

lemma rtrim_all_space: "\<forall>c \<in> set s. isSpace c \<Longrightarrow> rtrim s = []"
  by (simp add: rtrim_def)

lemma rtrim_append_space: "\<forall>c \<in> set w. isSpace c \<Longrightarrow> rtrim (u @ w) = rtrim u"
  by (simp add: rtrim_def dropWhile_append)

lemma all_dropWhile: "(\<forall>c \<in> set (dropWhile P xs). P c) \<longleftrightarrow> (\<forall>c \<in> set xs. P c)"
  by (induction xs) auto

lemma dropWhile_rtrim: "dropWhile isSpace (rtrim xs) = rtrim (dropWhile isSpace xs)"
  by (induction xs) (auto simp: rtrim_Cons rtrim_all_space all_dropWhile)

lemma relaxedBodyLine_Cons:
  "relaxedBodyLine (x # xs) =
     (if isSpace x
      then (if \<forall>c \<in> set xs. isSpace c then [] else CHR '' '' # relaxedBodyLine (dropWhile isSpace xs))
      else x # relaxedBodyLine xs)"
  by (auto simp: relaxedBodyLine_def rtrim_Cons dropWhile_rtrim)

lemma relaxedBodyLine_empty_iff: "relaxedBodyLine s = [] \<longleftrightarrow> (\<forall>c \<in> set s. isSpace c)"
  by (cases s) (auto simp: relaxedBodyLine_Cons)

lemma isSpace_space [simp]: "isSpace (CHR '' '')"
  by (simp add: isSpace_def)

lemma dropWhile_relaxedBodyLine:
  "dropWhile isSpace (relaxedBodyLine xs) = relaxedBodyLine (dropWhile isSpace xs)"
proof (induction xs)
  case Nil
  then show ?case by simp
next
  case (Cons x xs)
  show ?case
  proof (cases "isSpace x")
    case True
    show ?thesis
    proof (cases "\<forall>c \<in> set xs. isSpace c")
      case all: True
      then have d: "dropWhile isSpace xs = []" by simp
      have "relaxedBodyLine (x # xs) = []" using True all by (simp add: relaxedBodyLine_Cons)
      moreover have "dropWhile isSpace (x # xs) = []" using True d by simp
      ultimately show ?thesis by simp
    next
      case False
      have "relaxedBodyLine (x # xs) = CHR '' '' # relaxedBodyLine (dropWhile isSpace xs)"
        using True False by (simp add: relaxedBodyLine_Cons)
      then have "dropWhile isSpace (relaxedBodyLine (x # xs)) =
            dropWhile isSpace (relaxedBodyLine (dropWhile isSpace xs))"
        by simp
      also have "\<dots> = dropWhile isSpace (dropWhile isSpace (relaxedBodyLine xs))"
        by (simp only: Cons.IH)
      also have "\<dots> = dropWhile isSpace (relaxedBodyLine xs)"
        by (rule dropWhile_idem)
      also have "\<dots> = relaxedBodyLine (dropWhile isSpace (x # xs))"
        using True by (simp add: Cons.IH)
      finally show ?thesis .
    qed
  next
    case False
    then show ?thesis by (simp add: relaxedBodyLine_Cons)
  qed
qed

lemma relaxedBodyLine_idem: "relaxedBodyLine (relaxedBodyLine l) = relaxedBodyLine l"
proof (induction l rule: collapseWs.induct)
  case 1
  then show ?case by simp
next
  case (2 x xs)
  show ?case
  proof (cases "isSpace x")
    case True
    show ?thesis
    proof (cases "\<forall>c \<in> set xs. isSpace c")
      case all: True
      with True show ?thesis by (simp add: relaxedBodyLine_Cons)
    next
      case False
      let ?d = "dropWhile isSpace xs"
      let ?r = "relaxedBodyLine ?d"
      have eq: "relaxedBodyLine (x # xs) = CHR '' '' # ?r"
        using True False by (simp add: relaxedBodyLine_Cons)
      have ih: "relaxedBodyLine ?r = ?r" by (rule 2(1) [OF True])
      have "\<not> (\<forall>c \<in> set ?d. isSpace c)" using False by (simp add: all_dropWhile)
      then have "?r \<noteq> []" by (simp add: relaxedBodyLine_empty_iff)
      with ih have "relaxedBodyLine ?r \<noteq> []" by simp
      then have ne: "\<not> (\<forall>c \<in> set ?r. isSpace c)" by (simp add: relaxedBodyLine_empty_iff)
      have "dropWhile isSpace ?r = ?r"
        by (simp add: dropWhile_relaxedBodyLine)
      with ne ih have "relaxedBodyLine (CHR '' '' # ?r) = CHR '' '' # ?r"
        by (simp add: relaxedBodyLine_Cons)
      with eq show ?thesis by simp
    qed
  next
    case False
    with 2(2) show ?thesis by (simp add: relaxedBodyLine_Cons)
  qed
qed

lemma dropTrailingEmpty_replicate:
  "dropTrailingEmpty (ls @ replicate n []) = dropTrailingEmpty ls"
  by (simp add: dropTrailingEmpty_def dropWhile_append)

lemma dropTrailingEmpty_snoc_Nil: "dropTrailingEmpty (ls @ [[]]) = dropTrailingEmpty ls"
  by (simp add: dropTrailingEmpty_def)

lemma dropTrailingEmpty_idem: "dropTrailingEmpty (dropTrailingEmpty ls) = dropTrailingEmpty ls"
  by (simp add: dropTrailingEmpty_def)

lemma set_dropTrailingEmpty: "set (dropTrailingEmpty ls) \<subseteq> set ls"
  unfolding dropTrailingEmpty_def using set_dropWhileD by fastforce

lemma canonLines_props:
  assumes "l \<in> set (canonLines b)"
  shows "CR \<notin> set l" and "LF \<notin> set l" and "relaxedBodyLine l = l"
proof -
  from assms set_dropTrailingEmpty obtain l0 where l0: "l0 \<in> set (splitEol b)" "l = relaxedBodyLine l0"
    unfolding canonLines_def by fastforce
  show "CR \<notin> set l" "LF \<notin> set l"
    using l0 splitEol_no_eol [of l0 b] relaxedBodyLine_no_eol [of l0] by auto
  show "relaxedBodyLine l = l" using l0 by (simp add: relaxedBodyLine_idem)
qed

lemma relaxedBody_char:
  "relaxedBody b = lfToCrlf (joinWith [LF] (canonLines b) @ [LF])"
proof -
  have "\<forall>l \<in> set (map relaxedBodyLine (splitEol b)). LF \<notin> set l"
    using splitEol_no_eol [of _ b] relaxedBodyLine_no_eol by auto
  then show ?thesis
    unfolding relaxedBody_def canonLines_def splitEol_eq [symmetric]
    by (simp only: replaceTrailingLF_join)
qed

lemma normalizeEol_Cons: "x \<noteq> CR \<Longrightarrow> normalizeEol (x # xs) = x # normalizeEol xs"
  by (cases xs) auto

lemma normalizeEol_lfToCrlf: "CR \<notin> set s \<Longrightarrow> normalizeEol (lfToCrlf s) = s"
  by (induction s) (auto simp: lfToCrlf_def CRLF_def normalizeEol_Cons)

lemma split_char_snoc: "split_char c (s @ [c]) = split_char c s @ [[]]"
  by (induction s) (auto simp: addToFirst_append)

lemma split_char_none: "c \<notin> set l \<Longrightarrow> split_char c l = [l]"
  by (induction l) auto

lemma split_char_append_sep:
  "c \<notin> set l \<Longrightarrow> split_char c (l @ c # s) = l # split_char c s"
  by (induction l) auto

lemma split_char_join:
  "ls \<noteq> [] \<Longrightarrow> \<forall>l \<in> set ls. c \<notin> set l \<Longrightarrow> split_char c (joinWith [c] ls) = ls"
  by (induction "[c]" ls rule: joinWith.induct)
     (auto simp: split_char_none split_char_append_sep)

lemma set_joinWith: "set (joinWith sep ls) \<subseteq> set sep \<union> \<Union> (set ` set ls)"
  by (induction sep ls rule: joinWith.induct) auto

lemma splitEol_relaxedBody:
  "splitEol (relaxedBody b) = (if canonLines b = [] then [[]] else canonLines b) @ [[]]"
proof -
  let ?K = "canonLines b"
  have noCR: "CR \<notin> set (joinWith [LF] ?K @ [LF])"
    using set_joinWith [of "[LF]" ?K] canonLines_props(1) [of _ b]
    by (auto simp: CR_def LF_def)
  have "splitEol (relaxedBody b) = split_char LF (joinWith [LF] ?K @ [LF])"
    by (simp only: relaxedBody_char splitEol_eq normalizeEol_lfToCrlf [OF noCR])
  also have "\<dots> = split_char LF (joinWith [LF] ?K) @ [[]]"
    by (rule split_char_snoc)
  also have "split_char LF (joinWith [LF] ?K) = (if ?K = [] then [[]] else ?K)"
    using split_char_join [of ?K LF] canonLines_props(2) [of _ b] by auto
  finally show ?thesis .
qed

lemma canonLines_relaxedBody: "canonLines (relaxedBody b) = canonLines b"
proof -
  let ?K = "canonLines b"
  have m: "map relaxedBodyLine ?K = ?K"
    using canonLines_props(3) [of _ b] by (simp add: map_idI)
  have d: "dropTrailingEmpty ?K = ?K"
    by (simp add: canonLines_def dropTrailingEmpty_idem)
  show ?thesis
  proof (cases "?K = []")
    case True
    then show ?thesis
      by (subst canonLines_def) (simp add: splitEol_relaxedBody dropTrailingEmpty_def)
  next
    case False
    have "canonLines (relaxedBody b) = dropTrailingEmpty (?K @ [[]])"
      using False m by (subst canonLines_def) (simp add: splitEol_relaxedBody)
    then show ?thesis by (simp add: dropTrailingEmpty_snoc_Nil d)
  qed
qed

lemma relaxedBody_idem: "relaxedBody (relaxedBody b) = relaxedBody b"
  by (simp add: relaxedBody_char [of "relaxedBody b"] canonLines_relaxedBody relaxedBody_char [symmetric])

lemma canonLines_trailing:
  "splitEol b = ls @ replicate m [] \<Longrightarrow> canonLines b = dropTrailingEmpty (map relaxedBodyLine ls)"
  by (simp add: canonLines_def dropTrailingEmpty_replicate)

lemma map_eq_list_all2:
  "list_all2 R xs ys \<Longrightarrow> (\<And>x y. R x y \<Longrightarrow> f x = f y) \<Longrightarrow> map f xs = map f ys"
  by (induction rule: list_all2_induct) auto

lemma trailingWsEq_relaxed: "trailingWsEq l1 l2 \<Longrightarrow> relaxedBodyLine l1 = relaxedBodyLine l2"
  by (auto simp: trailingWsEq_def relaxedBodyLine_def rtrim_append_space list_all_iff)

lemma relaxedBodyLine_run:
  assumes "w \<noteq> []" "list_all isSpace w"
  shows "relaxedBodyLine (w @ xs) =
     (if \<forall>c \<in> set xs. isSpace c then [] else CHR '' '' # relaxedBodyLine (dropWhile isSpace xs))"
proof (cases w)
  case Nil
  with assms show ?thesis by simp
next
  case (Cons c w')
  with assms have "isSpace c" "\<forall>c \<in> set w'. isSpace c" by (auto simp: list_all_iff)
  then show ?thesis unfolding Cons
    by (auto simp: relaxedBodyLine_Cons dropWhile_append)
qed

lemma wsRunsEq_relaxed: "wsRunsEq l1 l2 \<Longrightarrow> relaxedBodyLine l1 = relaxedBodyLine l2"
proof (induction rule: wsRunsEq.induct)
  case Nil
  then show ?case by simp
next
  case (Char c xs ys)
  then show ?case by (simp add: relaxedBodyLine_Cons)
next
  case (Run w1 w2 xs ys)
  have a: "(\<forall>c \<in> set xs. isSpace c) \<longleftrightarrow> (\<forall>c \<in> set ys. isSpace c)"
    using Run.IH relaxedBodyLine_empty_iff [of xs] relaxedBodyLine_empty_iff [of ys] by simp
  have "relaxedBodyLine (dropWhile isSpace xs) = relaxedBodyLine (dropWhile isSpace ys)"
    using Run.IH by (simp add: dropWhile_relaxedBodyLine [symmetric])
  with a show ?case
    by (simp add: relaxedBodyLine_run [OF Run.hyps(1,3)] relaxedBodyLine_run [OF Run.hyps(2,4)])
qed

lemma splitEol_chars: "l \<in> set (splitEol b) \<Longrightarrow> set l \<subseteq> set b"
proof -
  have "set (normalizeEol s) \<subseteq> insert LF (set s)" for s
    by (induction s rule: normalizeEol.induct) auto
  moreover assume "l \<in> set (splitEol b)"
  ultimately show ?thesis
    using split_char_chars [of LF "normalizeEol b"] unfolding splitEol_eq by blast
qed

lemma dropTrailingEmpty_all_empty: "\<forall>l \<in> set ls. l = [] \<Longrightarrow> dropTrailingEmpty ls = []"
  by (simp add: dropTrailingEmpty_def)

lemma relaxedBody_all_space: "list_all isSpace b \<Longrightarrow> relaxedBody b = CRLF"
proof -
  assume ws: "list_all isSpace b"
  have "\<forall>l \<in> set (map relaxedBodyLine (splitEol b)). l = []"
    using ws splitEol_chars [of _ b]
    by (auto simp: relaxedBodyLine_empty_iff list_all_iff)
  then have "canonLines b = []"
    unfolding canonLines_def by (rule dropTrailingEmpty_all_empty)
  then show ?thesis by (simp add: relaxedBody_char lfToCrlf_def)
qed

text \<open>
  C6: \<open>relaxedBody\<close> maps every empty or white-space-only body to the two-character
  string CRLF, and it maps the body of scenario S1, \<open>"Hello  world  \r\n\r\n\r\n"\<close>, to
  \<open>"Hello world\r\n"\<close>.  (The empty body is the white-space-only body with no
  character.)
\<close>

theorem relaxedBody_blank_and_S1:
  "(list_all isSpace b \<longrightarrow> relaxedBody b = CRLF) \<and>
   relaxedBody (''Hello  world  '' @ CRLF @ CRLF @ CRLF) = ''Hello world'' @ CRLF"
proof
  show "list_all isSpace b \<longrightarrow> relaxedBody b = CRLF"
    by (simp add: relaxedBody_all_space)
  show "relaxedBody (''Hello  world  '' @ CRLF @ CRLF @ CRLF) = ''Hello world'' @ CRLF"
    by (simp add: relaxedBody_def relaxedBodyLine_def rtrim_def replaceTrailingLF_def
        lfToCrlf_def isSpace_def CRLF_def CR_def LF_def)
qed

theorem relaxedBody_blank_and_S1_witness:
  "list_all isSpace ('' '' @ CRLF @ [CHR 0x09]) \<and> list_all isSpace [] \<and>
   relaxedBody ('' '' @ CRLF @ [CHR 0x09]) = CRLF \<and> relaxedBody [] = CRLF"
  using relaxedBody_blank_and_S1 [of "'' '' @ CRLF @ [CHR 0x09]"] relaxedBody_blank_and_S1 [of "[]"]
  by (simp add: isSpace_def CRLF_def CR_def LF_def)

text \<open>
  C2: \<open>relaxedBody\<close> is idempotent, and two bodies have the same canonical body when
  (a) their lines differ only in the number of empty lines at the end, (b) they have
  the same lines and differ only in the line endings CR, LF or CRLF between them,
  (c) their lines differ only in trailing white space, or (d) their lines differ only
  in the length of runs of white space.
\<close>

theorem relaxedBody_idempotent_and_equivalences:
  "relaxedBody (relaxedBody b) = relaxedBody b \<and>
   (splitEol b1 = ls @ replicate m [] \<and> splitEol b2 = ls @ replicate n [] \<longrightarrow>
      relaxedBody b1 = relaxedBody b2) \<and>
   (splitEol b3 = splitEol b4 \<longrightarrow> relaxedBody b3 = relaxedBody b4) \<and>
   (list_all2 trailingWsEq (splitEol b5) (splitEol b6) \<longrightarrow> relaxedBody b5 = relaxedBody b6) \<and>
   (list_all2 wsRunsEq (splitEol b7) (splitEol b8) \<longrightarrow> relaxedBody b7 = relaxedBody b8)"
proof (intro conjI impI)
  show "relaxedBody (relaxedBody b) = relaxedBody b" by (rule relaxedBody_idem)
next
  assume "splitEol b1 = ls @ replicate m [] \<and> splitEol b2 = ls @ replicate n []"
  then have "canonLines b1 = canonLines b2" by (simp add: canonLines_trailing)
  then show "relaxedBody b1 = relaxedBody b2" by (simp add: relaxedBody_char)
next
  assume "splitEol b3 = splitEol b4"
  then have "canonLines b3 = canonLines b4" by (simp add: canonLines_def)
  then show "relaxedBody b3 = relaxedBody b4" by (simp add: relaxedBody_char)
next
  assume "list_all2 trailingWsEq (splitEol b5) (splitEol b6)"
  then have "map relaxedBodyLine (splitEol b5) = map relaxedBodyLine (splitEol b6)"
    by (rule map_eq_list_all2) (rule trailingWsEq_relaxed)
  then have "canonLines b5 = canonLines b6" by (simp add: canonLines_def)
  then show "relaxedBody b5 = relaxedBody b6" by (simp add: relaxedBody_char)
next
  assume "list_all2 wsRunsEq (splitEol b7) (splitEol b8)"
  then have "map relaxedBodyLine (splitEol b7) = map relaxedBodyLine (splitEol b8)"
    by (rule map_eq_list_all2) (rule wsRunsEq_relaxed)
  then have "canonLines b7 = canonLines b8" by (simp add: canonLines_def)
  then show "relaxedBody b7 = relaxedBody b8" by (simp add: relaxedBody_char)
qed

theorem relaxedBody_idempotent_and_equivalences_witness:
  "relaxedBody (relaxedBody ''a  b '') = relaxedBody ''a  b '' \<and>
   splitEol (''a'' @ CRLF) = [''a''] @ replicate 1 [] \<and>
   splitEol (''a'' @ CRLF @ CRLF @ CRLF) = [''a''] @ replicate 3 [] \<and>
   relaxedBody (''a'' @ CRLF) = relaxedBody (''a'' @ CRLF @ CRLF @ CRLF) \<and>
   splitEol (''a'' @ [CR] @ ''b'' @ [LF]) = splitEol (''a'' @ CRLF @ ''b'' @ [CR]) \<and>
   relaxedBody (''a'' @ [CR] @ ''b'' @ [LF]) = relaxedBody (''a'' @ CRLF @ ''b'' @ [CR]) \<and>
   list_all2 trailingWsEq (splitEol (''a '' @ CRLF @ ''b'')) (splitEol (''a'' @ CRLF @ ''b  '')) \<and>
   relaxedBody (''a '' @ CRLF @ ''b'') = relaxedBody (''a'' @ CRLF @ ''b  '') \<and>
   list_all2 wsRunsEq (splitEol ''a   b'') (splitEol ''a b'') \<and>
   relaxedBody ''a   b'' = relaxedBody ''a b''"
proof -
  have a: "splitEol (''a'' @ CRLF) = [''a''] @ replicate 1 [] \<and>
     splitEol (''a'' @ CRLF @ CRLF @ CRLF) = [''a''] @ replicate 3 []"
    by (simp add: CRLF_def CR_def LF_def numeral_3_eq_3)
  have b: "splitEol (''a'' @ [CR] @ ''b'' @ [LF]) = splitEol (''a'' @ CRLF @ ''b'' @ [CR])"
    by (simp add: CRLF_def CR_def LF_def)
  have "trailingWsEq ''a '' ''a''"
    unfolding trailingWsEq_def
    by (rule exI [of _ "''a''"], rule exI [of _ "'' ''"], rule exI [of _ "[]"]) simp
  moreover have "trailingWsEq ''b'' ''b  ''"
    unfolding trailingWsEq_def
    by (rule exI [of _ "''b''"], rule exI [of _ "[]"], rule exI [of _ "''  ''"]) simp
  ultimately have c: "list_all2 trailingWsEq (splitEol (''a '' @ CRLF @ ''b'')) (splitEol (''a'' @ CRLF @ ''b  ''))" 
    by (simp add: CRLF_def CR_def LF_def)
  have "wsRunsEq ''b'' ''b''"
    by (intro wsRunsEq.Char wsRunsEq.Nil) (simp add: isSpace_def)
  then have "wsRunsEq (''   '' @ ''b'') ('' '' @ ''b'')"
    by (rule wsRunsEq.Run [rotated 4]) simp_all
  then have "wsRunsEq ''a   b'' ''a b''"
    using wsRunsEq.Char [of "CHR ''a''" "''   b''" "'' b''"] by (simp add: isSpace_def)
  then have d: "list_all2 wsRunsEq (splitEol ''a   b'') (splitEol ''a b'')"
    by (simp add: CR_def LF_def)
  show ?thesis
    using a b c d
      relaxedBody_idempotent_and_equivalences [of "''a  b ''"
        "''a'' @ CRLF" "[''a'']" 1 "''a'' @ CRLF @ CRLF @ CRLF" 3
        "''a'' @ [CR] @ ''b'' @ [LF]" "''a'' @ CRLF @ ''b'' @ [CR]"
        "''a '' @ CRLF @ ''b''" "''a'' @ CRLF @ ''b  ''"
        "''a   b''" "''a b''"]
    by blast
qed


subsection \<open>relaxedHeaders\<close>

lemma joinLoop_fold: "joinLoop inc rs hf = fold (recordLine inc) (unfoldRev rs) hf"
  by (induction inc rs hf rule: joinLoop.induct) auto

lemma fold_recordLine:
  "fold (recordLine inc) bs hf k =
     (case hf k of
        Some v \<Rightarrow> Some v
      | None \<Rightarrow> if k \<in> set inc \<and> k \<notin> set objectPrototypeKeys
                then map_of (map relaxedHeaderLine bs) k else None)"
proof (induction bs arbitrary: hf)
  case Nil
  then show ?case by (simp split: option.split)
next
  case (Cons b bs)
  obtain k' v' where b: "relaxedHeaderLine b = (k', v')" by (cases "relaxedHeaderLine b")
  let ?hf = "recordLine inc b hf"
  have step: "fold (recordLine inc) (b # bs) hf k = fold (recordLine inc) bs ?hf k" by simp
  have hf: "?hf = (if k' \<in> set inc \<and> hf k' = None \<and> k' \<notin> set objectPrototypeKeys
                  then hf(k' \<mapsto> v') else hf)"
    by (simp add: recordLine_def b hasProperty_def)
  show ?case
    unfolding step Cons.IH [of ?hf] unfolding hf
    by (auto simp: b split: option.split)
qed

lemma headerFieldsOf_eq:
  "headerFieldsOf raw names k =
     (if k \<in> set (includedFields names) \<and> k \<notin> set objectPrototypeKeys
      then lastValue raw k else None)"
  by (simp add: headerFieldsOf_def joinLoop_fold fold_recordLine lastValue_def headerEntries_def)

lemma selectLoop_eq:
  "selectLoop hf inc =
     (map (\<lambda>n. n @ '':'' @ toText (getProperty hf n)) (filter (\<lambda>n. truthy (getProperty hf n)) inc),
      filter (\<lambda>n. truthy (getProperty hf n)) inc)"
  by (induction inc) auto

lemma relaxedHeaders_eq:
  "relaxedHeaders raw names =
     \<lparr>headers = joinWith CRLF (canonicalLines raw names) @ CRLF,
      fieldNames = joinWith '':'' (keptNames raw names)\<rparr>"
  by (simp add: relaxedHeaders_def canonicalLines_def keptNames_def split: prod.split)

lemma getProperty_headerFieldsOf:
  "n \<in> set (includedFields names) \<Longrightarrow> n \<notin> set objectPrototypeKeys \<Longrightarrow>
   getProperty (headerFieldsOf raw names) n =
     (case lastValue raw n of Some v \<Rightarrow> Str v | None \<Rightarrow> Undefined)"
  by (simp add: getProperty_def headerFieldsOf_eq)

lemma lastValue_last:
  "headerEntries raw = es1 @ [(n, v)] @ es2 \<Longrightarrow> n \<notin> fst ` set es2 \<Longrightarrow> lastValue raw n = Some v"
proof -
  assume e: "headerEntries raw = es1 @ [(n, v)] @ es2" and n: "n \<notin> fst ` set es2"
  from n have "map_of (rev es2) n = None" by (simp add: map_of_eq_None_iff)
  then show ?thesis by (simp add: lastValue_def e map_add_def)
qed

lemma keptNames_eq:
  assumes "set (includedFields names) \<inter> set objectPrototypeKeys = {}"
  shows "keptNames raw names = filter (hasValue raw) (includedFields names)"
proof -
  have "truthy (getProperty (headerFieldsOf raw names) n) = hasValue raw n"
    if "n \<in> set (includedFields names)" for n
  proof -
    from that assms have "n \<notin> set objectPrototypeKeys" by blast
    with that show ?thesis
      by (simp add: getProperty_headerFieldsOf hasValue_def split: option.split)
  qed
  then show ?thesis
    by (simp add: keptNames_def selectLoop_eq cong: filter_cong)
qed

lemma canonicalLines_eq:
  assumes "set (includedFields names) \<inter> set objectPrototypeKeys = {}"
  shows "canonicalLines raw names = map (\<lambda>n. n @ '':'' @ valueText raw n) (keptNames raw names)"
proof -
  have "toText (getProperty (headerFieldsOf raw names) n) = valueText raw n"
    if "n \<in> set (filter (\<lambda>n. truthy (getProperty (headerFieldsOf raw names) n)) (includedFields names))" for n
  proof -
    from that have n: "n \<in> set (includedFields names)"
      and t: "truthy (getProperty (headerFieldsOf raw names) n)" by simp_all
    from n assms have "n \<notin> set objectPrototypeKeys" by blast
    with n t show ?thesis
      by (simp add: getProperty_headerFieldsOf valueText_def split: option.splits)
  qed
  then show ?thesis
    by (simp add: canonicalLines_def keptNames_def selectLoop_eq)
qed

lemma joinWith_terminated:
  "hs \<noteq> [] \<Longrightarrow> joinWith sep hs @ sep = concat (map (\<lambda>h. h @ sep) hs)"
  by (induction sep hs rule: joinWith.induct) auto





text \<open>
  C7 as stated fails: a requested \<open>Subject\<close> header with nothing after the colon is
  dropped from the kept names and has no line in the canonical block.
\<close>

theorem relaxedHeaders_empty_value_counterexample:
  "relaxedHeaders (''Subject:'' @ CRLF @ ''From: a@x'' @ CRLF) ''from:subject''
     = \<lparr>headers = ''from:a@x'' @ CRLF, fieldNames = ''from''\<rparr> \<and>
   (''subject'', []) \<in> set (headerEntries (''Subject:'' @ CRLF @ ''From: a@x'' @ CRLF)) \<and>
   ''subject'' \<in> set (includedFields ''from:subject'')"
  by code_simp

text \<open>
  C7, amended: when the bottommost occurrence of a name (other than a property name of
  \<open>Object.prototype\<close>) has an empty value, nothing after the colon or white space
  only, \<open>relaxedHeaders\<close> drops that header: the name is not among the kept names, and
  the canonical block holds the lines of the kept names only.
\<close>

theorem relaxedHeaders_empty_value_dropped:
  assumes "headerEntries raw = es1 @ [(n, [])] @ es2" and "n \<notin> fst ` set es2"
    and "n \<notin> set objectPrototypeKeys"
  shows "n \<notin> set (keptNames raw names) \<and>
         fieldNames (relaxedHeaders raw names) = joinWith '':'' (keptNames raw names) \<and>
         headers (relaxedHeaders raw names) =
           joinWith CRLF (map (\<lambda>k. k @ '':'' @ toText (getProperty (headerFieldsOf raw names) k))
             (keptNames raw names)) @ CRLF"
proof -
  have lv: "lastValue raw n = Some []" using assms(1,2) by (rule lastValue_last)
  have "\<not> truthy (getProperty (headerFieldsOf raw names) n)"
    using assms(3) by (simp add: getProperty_def headerFieldsOf_eq lv)
  then have "n \<notin> set (keptNames raw names)"
    by (simp add: keptNames_def selectLoop_eq)
  then show ?thesis
    by (simp add: relaxedHeaders_eq) (simp add: canonicalLines_def keptNames_def selectLoop_eq)
qed

lemma entries_empty_subject:
  "headerEntries (''Subject:   '' @ CRLF @ ''To: b@y'') =
     [] @ [(''subject'', [])] @ [(''to'', ''b@y'')]"
  by code_simp

theorem relaxedHeaders_empty_value_dropped_witness:
  "headerEntries (''Subject:   '' @ CRLF @ ''To: b@y'') =
     [] @ [(''subject'', [])] @ [(''to'', ''b@y'')] \<and>
   ''subject'' \<notin> fst ` set [(''to'', ''b@y'')] \<and>
   ''subject'' \<notin> set objectPrototypeKeys \<and>
   ''subject'' \<in> set (includedFields ''Subject:To'') \<and>
   ''subject'' \<notin> set (keptNames (''Subject:   '' @ CRLF @ ''To: b@y'') ''Subject:To'') \<and>
   fieldNames (relaxedHeaders (''Subject:   '' @ CRLF @ ''To: b@y'') ''Subject:To'') = ''to'' \<and>
   headers (relaxedHeaders (''Subject:   '' @ CRLF @ ''To: b@y'') ''Subject:To'') = ''to:b@y'' @ CRLF"
proof -
  have a: "''subject'' \<notin> fst ` set [(''to'', ''b@y'')]" by simp
  have c: "''subject'' \<notin> set objectPrototypeKeys" by (simp add: objectPrototypeKeys_def)
  have i: "''subject'' \<in> set (includedFields ''Subject:To'')" by code_simp
  have k: "''subject'' \<notin> set (keptNames (''Subject:   '' @ CRLF @ ''To: b@y'') ''Subject:To'')"
    using relaxedHeaders_empty_value_dropped [OF entries_empty_subject a c, of "''Subject:To''"]
    by (rule conjunct1)
  have f: "fieldNames (relaxedHeaders (''Subject:   '' @ CRLF @ ''To: b@y'') ''Subject:To'') = ''to''"
    by code_simp
  have h: "headers (relaxedHeaders (''Subject:   '' @ CRLF @ ''To: b@y'') ''Subject:To'') = ''to:b@y'' @ CRLF"
    by code_simp
  from entries_empty_subject a c i k f h show ?thesis by blast
qed

text \<open>
  C3 as stated fails in three ways: a requested header that occurs in the block with
  an empty value is not kept; a requested name \<open>constructor\<close> is kept although the
  block has no such header; and when no header is selected the canonical block is CRLF
  and not the empty string.
\<close>

theorem relaxedHeaders_exactly_requested_counterexample:
  "relaxedHeaders (''From: a@x'' @ CRLF @ ''Subject:   '' @ CRLF) ''from:subject''
     = \<lparr>headers = ''from:a@x'' @ CRLF, fieldNames = ''from''\<rparr> \<and>
   relaxedHeaders (''To: b@y'' @ CRLF) ''constructor''
     = \<lparr>headers = ''constructor:function Object() { [native code] }'' @ CRLF,
        fieldNames = ''constructor''\<rparr> \<and>
   relaxedHeaders (''To: b@y'' @ CRLF) ''from'' = \<lparr>headers = CRLF, fieldNames = []\<rparr>"
  by code_simp

text \<open>
  C3, amended: when no requested name is a property name of \<open>Object.prototype\<close>, the
  kept names are exactly the requested names, lowercased and trimmed, whose bottommost
  occurrence in the block has a non-empty value, in the order of the requested list;
  the canonical block is the lines of the kept names in that order, each the name, a
  colon and the value of that occurrence (white space collapsed and trimmed), joined by
  CRLF and followed by one CRLF, which is every line followed by CRLF when a name is
  kept.  Scenario S2 holds as stated.
\<close>

theorem relaxedHeaders_kept_names_and_block:
  assumes "set (includedFields names) \<inter> set objectPrototypeKeys = {}"
  shows "includedFields names = map trim (split_char (CHR '':'') (toLowerCase names)) \<and>
         keptNames raw names = filter (hasValue raw) (includedFields names) \<and>
         canonicalLines raw names = map (\<lambda>n. n @ '':'' @ valueText raw n) (keptNames raw names) \<and>
         relaxedHeaders raw names =
           \<lparr>headers = joinWith CRLF (canonicalLines raw names) @ CRLF,
            fieldNames = joinWith '':'' (keptNames raw names)\<rparr> \<and>
         (keptNames raw names \<noteq> [] \<longrightarrow>
            headers (relaxedHeaders raw names) =
              concat (map (\<lambda>n. n @ '':'' @ valueText raw n @ CRLF) (keptNames raw names))) \<and>
         relaxedHeaders (''From: a@x'' @ CRLF @ ''Subject: Hi'' @ CRLF @ '' there'' @ CRLF)
             ''from:subject''
           = \<lparr>headers = ''from:a@x'' @ CRLF @ ''subject:Hi there'' @ CRLF,
              fieldNames = ''from:subject''\<rparr>"
proof (intro conjI impI)
  show "includedFields names = map trim (split_char (CHR '':'') (toLowerCase names))"
    by (simp add: includedFields_def)
  show "keptNames raw names = filter (hasValue raw) (includedFields names)"
    using assms by (rule keptNames_eq)
  show cl: "canonicalLines raw names = map (\<lambda>n. n @ '':'' @ valueText raw n) (keptNames raw names)"
    using assms by (rule canonicalLines_eq)
  show "relaxedHeaders raw names =
           \<lparr>headers = joinWith CRLF (canonicalLines raw names) @ CRLF,
            fieldNames = joinWith '':'' (keptNames raw names)\<rparr>"
    by (rule relaxedHeaders_eq)
  show "headers (relaxedHeaders raw names) =
              concat (map (\<lambda>n. n @ '':'' @ valueText raw n @ CRLF) (keptNames raw names))"
    if "keptNames raw names \<noteq> []"
    using that by (simp add: relaxedHeaders_eq cl joinWith_terminated comp_def)
  show "relaxedHeaders (''From: a@x'' @ CRLF @ ''Subject: Hi'' @ CRLF @ '' there'' @ CRLF)
             ''from:subject''
           = \<lparr>headers = ''from:a@x'' @ CRLF @ ''subject:Hi there'' @ CRLF,
              fieldNames = ''from:subject''\<rparr>"
    by code_simp
qed

theorem relaxedHeaders_kept_names_and_block_witness:
  "set (includedFields ''To:Subject:From'') \<inter> set objectPrototypeKeys = {} \<and>
   keptNames (''From: a@x'' @ CRLF @ ''Subject:'' @ CRLF @ ''To:  b@y  '') ''To:Subject:From''
     = [''to'', ''from''] \<and>
   canonicalLines (''From: a@x'' @ CRLF @ ''Subject:'' @ CRLF @ ''To:  b@y  '') ''To:Subject:From''
     = [''to:b@y'', ''from:a@x''] \<and>
   relaxedHeaders (''From: a@x'' @ CRLF @ ''Subject:'' @ CRLF @ ''To:  b@y  '') ''To:Subject:From''
     = \<lparr>headers = ''to:b@y'' @ CRLF @ ''from:a@x'' @ CRLF, fieldNames = ''to:from''\<rparr>"
proof -
  let ?raw = "''From: a@x'' @ CRLF @ ''Subject:'' @ CRLF @ ''To:  b@y  ''"
  let ?names = "''To:Subject:From''"
  have a: "set (includedFields ?names) \<inter> set objectPrototypeKeys = {}"
    by code_simp
  note t = relaxedHeaders_kept_names_and_block [OF a, of ?raw]
  have "filter (hasValue ?raw) (includedFields ?names) = [''to'', ''from'']"
    by code_simp
  with t have k: "keptNames ?raw ?names = [''to'', ''from'']"
    by (elim conjE) (rule trans)
  have c: "canonicalLines ?raw ?names = [''to:b@y'', ''from:a@x'']"
    by code_simp
  have r: "relaxedHeaders ?raw ?names
     = \<lparr>headers = ''to:b@y'' @ CRLF @ ''from:a@x'' @ CRLF, fieldNames = ''to:from''\<rparr>"
    by code_simp
  from a k c r show ?thesis by blast
qed

subsection \<open>DKIMSign\<close>













lemma prefix_take: "xs = m @ r \<Longrightarrow> take (length m) xs = m"
  by simp




lemma set_take_drop: "set xs = set (take n xs) \<union> set (drop n xs)"
  by (metis append_take_drop_id set_append)







subsection \<open>Folding and the canonical DKIM header line\<close>



















subsection \<open>The headers and the body of a message\<close>













subsection \<open>getMailExchange and getRecipientsByMx\<close>

lemma hd_sort_key_min:
  assumes "xs \<noteq> []"
  shows "hd (sort_key f xs) \<in> set xs \<and> (\<forall>x \<in> set xs. f (hd (sort_key f xs)) \<le> f x)"
proof -
  let ?ys = "sort_key f xs"
  have ne: "?ys \<noteq> []" using assms by (metis length_sort length_0_conv)
  then obtain y ys where ys: "?ys = y # ys" by (cases ?ys) auto
  have "sorted (map f ?ys)" by (rule sorted_sort_key)
  then have "\<forall>z \<in> set ys. f y \<le> f z" unfolding ys by simp
  moreover have "set ?ys = set xs" by simp
  ultimately show ?thesis unfolding ys by (metis list.sel(1) list.set_intros(1) order_refl set_ConsD ys)
qed

text \<open>
  C9: \<open>getMailExchange\<close> rejects exactly when the timer comes first, the DNS lookup
  reports an error, or the lookup returns no list or an empty list of MX records;
  and when the lookup returns a non-empty list without an error before the timer, it
  resolves with the exchange of a record of that list whose priority is minimal.
\<close>

theorem getMailExchange_result:
  "((\<exists>e. getMailExchange domain timeout ev = Inl e) \<longleftrightarrow>
      (ev = TimerFired \<or> (\<exists>err addrs. ev = Resolved (Some err) addrs) \<or>
       ev = Resolved None None \<or> ev = Resolved None (Some []))) \<and>
   (records \<noteq> [] \<longrightarrow>
      (\<exists>r \<in> set records.
          getMailExchange domain timeout (Resolved None (Some records)) = Inr (exchange r) \<and>
          (\<forall>r' \<in> set records. priority r \<le> priority r')))"
proof (intro conjI impI)
  show "(\<exists>e. getMailExchange domain timeout ev = Inl e) \<longleftrightarrow>
      (ev = TimerFired \<or> (\<exists>err addrs. ev = Resolved (Some err) addrs) \<or>
       ev = Resolved None None \<or> ev = Resolved None (Some []))"
    by (auto simp: getMailExchange_def split: dnsEvent.splits option.splits list.splits)
next
  assume ne: "records \<noteq> []"
  then obtain a as where r: "records = a # as" by (cases records) auto
  have "getMailExchange domain timeout (Resolved None (Some records))
      = Inr (exchange (hd (sort_key priority records)))"
    by (simp add: getMailExchange_def r)
  with hd_sort_key_min [OF ne, of priority]
  show "\<exists>r \<in> set records.
          getMailExchange domain timeout (Resolved None (Some records)) = Inr (exchange r) \<and>
          (\<forall>r' \<in> set records. priority r \<le> priority r')"
    by blast
qed

theorem getMailExchange_result_witness:
  "exampleRecords \<noteq> [] \<and>
   getMailExchange ''ex1.com'' 10000 (Resolved None (Some exampleRecords)) = Inr ''mx1.ex1.com'' \<and>
   getMailExchange ''ex1.com'' 10000 TimerFired
     = Inl (Error ''DNS resolution timed out after 10000ms'') \<and>
   getMailExchange ''ex1.com'' 10000 (Resolved (Some ''ENOTFOUND'') None)
     = Inl (Error ''Failed to resolve MX records for domain ex1.com: ENOTFOUND'') \<and>
   getMailExchange ''ex1.com'' 10000 (Resolved None (Some []))
     = Inl (Error ''No MX records found for domain ex1.com'') \<and>
   (\<exists>r \<in> set exampleRecords.
      getMailExchange ''ex1.com'' 10000 (Resolved None (Some exampleRecords)) = Inr (exchange r) \<and>
      list_all (\<lambda>r'. priority r \<le> priority r') exampleRecords)"
proof -
  have ne: "exampleRecords \<noteq> []" by (simp add: exampleRecords_def)
  have 1: "getMailExchange ''ex1.com'' 10000 (Resolved None (Some exampleRecords)) = Inr ''mx1.ex1.com''"
    by code_simp
  have 2: "getMailExchange ''ex1.com'' 10000 TimerFired
     = Inl (Error ''DNS resolution timed out after 10000ms'')"
    by code_simp
  have 3: "getMailExchange ''ex1.com'' 10000 (Resolved (Some ''ENOTFOUND'') None)
     = Inl (Error ''Failed to resolve MX records for domain ex1.com: ENOTFOUND'')"
    by code_simp
  have 4: "getMailExchange ''ex1.com'' 10000 (Resolved None (Some []))
     = Inl (Error ''No MX records found for domain ex1.com'')"
    by code_simp
  have 5: "\<exists>r \<in> set exampleRecords.
      getMailExchange ''ex1.com'' 10000 (Resolved None (Some exampleRecords)) = Inr (exchange r) \<and>
      list_all (\<lambda>r'. priority r \<le> priority r') exampleRecords"
    using getMailExchange_result [of "''ex1.com''" 10000 TimerFired exampleRecords,
        THEN conjunct2, THEN mp, OF ne]
    by (simp only: list_all_iff)
  show ?thesis by (intro conjI ne 1 2 3 4 5)
qed























lemma groups_of_S4: "getRecipientsByMx exampleDns envelopeS4 10000 = Inr groupsS4"
  by code_simp


subsection \<open>createEmailMessage and the TLS handler\<close>

lemma createEmailMessage_payload:
  assumes "createEmailMessage p env dkim = Inr payload"
  shows "\<exists>t. (dkim = None \<and> payload = messageText p env t) \<or>
             (\<exists>opts field. dkim = Some opts \<and>
                DKIMSign (sha256Base64 p) (domainToASCII p) (rsaSign p) (messageText p env t)
                  \<lparr>domainName = Some (dkimDomain opts),
                   keySelector = Some (dkimKeySelector opts),
                   headerFieldNames = None, privateKey = Some (dkimPrivateKey opts)\<rparr> = Inr field \<and>
                payload = field @ CRLF @ messageText p env t)"
proof -
  from assms obtain t where t: "(case dkim of
        Some options \<Rightarrow> dkimSigned p (messageText p env t) options
      | None \<Rightarrow> Inr (messageText p env t)) = Inr payload"
    by (auto simp: createEmailMessage_def Let_def split: sum.splits)
  show ?thesis
  proof (cases dkim)
    case None
    with t show ?thesis by auto
  next
    case (Some opts)
    with t have "dkimSigned p (messageText p env t) opts = Inr payload" by simp
    then obtain field where
      "DKIMSign (sha256Base64 p) (domainToASCII p) (rsaSign p) (messageText p env t)
         \<lparr>domainName = Some (dkimDomain opts), keySelector = Some (dkimKeySelector opts),
          headerFieldNames = None, privateKey = Some (dkimPrivateKey opts)\<rparr> = Inr field"
      "payload = field @ CRLF @ messageText p env t"
      by (auto simp: dkimSigned_def split: sum.splits)
    with Some show ?thesis by blast
  qed
qed

lemma createEmailMessage_cases:
  assumes "createEmailMessage p env dkim = Inr message"
  shows "\<exists>s t. message = s @ messageText p env t"
proof -
  from createEmailMessage_payload [OF assms] obtain t where
    "message = [] @ messageText p env t \<or>
     (\<exists>field. message = (field @ CRLF) @ messageText p env t)"
    by auto
  then show ?thesis by blast
qed

lemma createEmailMessage_body:
  assumes "createEmailMessage p env dkim = Inr message"
  shows "\<exists>pre post. message = pre @ env_body env @ CRLF @ post"
proof -
  from createEmailMessage_cases [OF assms] obtain s t where "message = s @ messageText p env t"
    by blast
  then have "message = (s @ addressHeaders p env @ optionalHeader ''BCC'' (env_bcc env) @
      subjectHeaders p env @ partsBeforeBody p) @ env_body env @ CRLF @ partsAfterBody p env t"
    by (simp add: messageText_def)
  then show ?thesis by blast
qed

subsection \<open>The header lines of a message\<close>

lemma noEol_Nil [simp]: "noEol []"
  by (simp add: noEol_def)


lemma noEol_Cons [simp]: "noEol (c # cs) \<longleftrightarrow> c \<noteq> CR \<and> c \<noteq> LF \<and> noEol cs"
  by (auto simp: noEol_def isEol_def)














subsection \<open>Texts without an empty line\<close>

lemma addToFirst_tl [simp]: "L \<noteq> [] \<Longrightarrow> tl (addToFirst c L) = tl L"
  by (cases L) auto























text \<open>
  C5 as stated fails: the body lines \<open>.\<close> and \<open>..x\<close> are written after the 354
  response as they are; no line \<open>..\<close> or \<open>...x\<close> is written.
\<close>

theorem data_not_dot_stuffed_counterexample:
  "(case tlsOnData examplePlatform None dotEnvelope dotGroup True ''354 End data with .'' of
      ([Write payload, Write terminator], greeted) \<Rightarrow>
        ''.'' \<in> set (splitEol payload) \<and> ''..x'' \<in> set (splitEol payload) \<and>
        ''..'' \<notin> set (splitEol payload) \<and> ''...x'' \<notin> set (splitEol payload) \<and>
        terminator = ''.'' @ CRLF
    | _ \<Rightarrow> False)"
  by code_simp

text \<open>
  C5, amended: when the server answers 354, the client writes the message exactly as
  \<open>createEmailMessage\<close> built it, and then a dot and CRLF; the message holds the
  plain-text body of the envelope verbatim, so a line that begins with a dot is
  written with that one dot.  (When an attachment cannot be read nothing is written
  and the session is rejected.)
\<close>

theorem data_written_unchanged:
  assumes "responseCode response = Some 354"
  shows "tlsOnData p dkim env grp greeted response =
           (case createEmailMessage p env dkim of
              Inr message \<Rightarrow> ([Write message, Write (''.'' @ CRLF)], greeted)
            | Inl e \<Rightarrow> ([Reject e], greeted)) \<and>
         (\<forall>message. createEmailMessage p env dkim = Inr message \<longrightarrow>
            (\<exists>pre post. message = pre @ env_body env @ CRLF @ post))"
  using assms createEmailMessage_body
  by (auto simp: tlsOnData_def Let_def split: sum.splits)

theorem data_written_unchanged_witness:
  "responseCode ''354 End data with .'' = Some 354 \<and>
   createEmailMessage examplePlatform dotEnvelope None
     = Inr (messageText examplePlatform dotEnvelope []) \<and>
   tlsOnData examplePlatform None dotEnvelope dotGroup True ''354 End data with .''
     = ([Write (messageText examplePlatform dotEnvelope []), Write (''.'' @ CRLF)], True)"
proof -
  have r: "responseCode ''354 End data with .'' = Some 354" by code_simp
  have c: "createEmailMessage examplePlatform dotEnvelope None
     = Inr (messageText examplePlatform dotEnvelope [])"
    by (simp add: createEmailMessage_def dotEnvelope_def)
  have t: "tlsOnData examplePlatform None dotEnvelope dotGroup True ''354 End data with .''
     = ([Write (messageText examplePlatform dotEnvelope []), Write (''.'' @ CRLF)], True)"
    using data_written_unchanged [OF r, of examplePlatform None dotEnvelope dotGroup True,
        THEN conjunct1]
    by (simp only: c sum.case)
  show ?thesis by (intro conjI r c t)
qed



end
